theory Spec2Isabelle
  imports Complex_Main "HOL-Library.Word" "HOL-Library.Multiset"
begin

section \<open>Machine types\<close>

text \<open>
  \<open>uint32\<close> is a 32-bit word: \<open>+\<close> and \<open>-\<close> wrap around as in C++.  \<open>intp\<close> is the signed,
  pointer-sized index type; positions into feature vectors never leave the range in which
  it is exact, so it is \<open>int\<close>, and every conversion to \<open>uint32\<close> is written out as
  \<open>mod 2 ^ 32\<close>.
\<close>

type_synonym uint32 = "32 word"
type_synonym intp = int

text \<open>
  \<open>float32\<close> and \<open>float64\<close> values.  The model is exact IEEE arithmetic: a finite value is a
  real number and the operations are those of IEEE 754 on the special values (an invalid
  operation gives \<open>NaN\<close>, every comparison with \<open>NaN\<close> is false); rounding is not modelled and
  the two zeros are not told apart (a zero divisor is the positive zero that \<open>sqrt\<close> and
  a difference of equal values produce).
\<close>

datatype ieee = Finite real | PosInf | NegInf | NaN

type_synonym float32 = ieee
type_synonym float64 = ieee

fun fneg :: "ieee \<Rightarrow> ieee" where
  "fneg (Finite a) = Finite (- a)"
| "fneg PosInf = NegInf"
| "fneg NegInf = PosInf"
| "fneg NaN = NaN"

fun fabs :: "ieee \<Rightarrow> ieee" where
  "fabs (Finite a) = Finite \<bar>a\<bar>"
| "fabs PosInf = PosInf"
| "fabs NegInf = PosInf"
| "fabs NaN = NaN"

fun fadd :: "ieee \<Rightarrow> ieee \<Rightarrow> ieee" where
  "fadd (Finite a) (Finite b) = Finite (a + b)"
| "fadd NaN _ = NaN"
| "fadd _ NaN = NaN"
| "fadd PosInf NegInf = NaN"
| "fadd NegInf PosInf = NaN"
| "fadd PosInf _ = PosInf"
| "fadd NegInf _ = NegInf"
| "fadd _ PosInf = PosInf"
| "fadd _ NegInf = NegInf"

definition fsub :: "ieee \<Rightarrow> ieee \<Rightarrow> ieee" where
  "fsub a b = fadd a (fneg b)"

text \<open>The sign of a value that is not \<open>NaN\<close>: \<open>-1\<close>, \<open>0\<close> or \<open>1\<close>.\<close>

fun fsign :: "ieee \<Rightarrow> real" where
  "fsign (Finite a) = sgn a"
| "fsign PosInf = 1"
| "fsign NegInf = - 1"
| "fsign NaN = 0"

definition infOfSign :: "real \<Rightarrow> ieee" where
  "infOfSign s = (if s = 0 then NaN else if 0 < s then PosInf else NegInf)"

fun fmul :: "ieee \<Rightarrow> ieee \<Rightarrow> ieee" where
  "fmul (Finite a) (Finite b) = Finite (a * b)"
| "fmul NaN _ = NaN"
| "fmul _ NaN = NaN"
| "fmul a b = infOfSign (fsign a * fsign b)"

fun fdiv :: "ieee \<Rightarrow> ieee \<Rightarrow> ieee" where
  "fdiv (Finite a) (Finite b) = (if b = 0 then infOfSign (sgn a) else Finite (a / b))"
| "fdiv NaN _ = NaN"
| "fdiv _ NaN = NaN"
| "fdiv (Finite a) _ = Finite 0"
| "fdiv a (Finite b) = infOfSign (fsign a * (if b < 0 then - 1 else 1))"
| "fdiv _ _ = NaN"

fun fsqrt :: "ieee \<Rightarrow> ieee" where
  "fsqrt (Finite a) = (if a < 0 then NaN else Finite (sqrt a))"
| "fsqrt PosInf = PosInf"
| "fsqrt NegInf = NaN"
| "fsqrt NaN = NaN"

text \<open>\<open>std::pow(x, 2)\<close>.\<close>

definition fpow2 :: "ieee \<Rightarrow> ieee" where
  "fpow2 x = fmul x x"

fun flt :: "ieee \<Rightarrow> ieee \<Rightarrow> bool" where
  "flt (Finite a) (Finite b) = (a < b)"
| "flt NaN _ = False"
| "flt _ NaN = False"
| "flt NegInf NegInf = False"
| "flt NegInf _ = True"
| "flt _ NegInf = False"
| "flt PosInf _ = False"
| "flt _ PosInf = True"

fun feq :: "ieee \<Rightarrow> ieee \<Rightarrow> bool" where
  "feq NaN _ = False"
| "feq _ NaN = False"
| "feq a b = (a = b)"

definition fle :: "ieee \<Rightarrow> ieee \<Rightarrow> bool" where
  "fle a b = (flt a b \<or> feq a b)"

definition fgt :: "ieee \<Rightarrow> ieee \<Rightarrow> bool" where
  "fgt a b = flt b a"

definition fge :: "ieee \<Rightarrow> ieee \<Rightarrow> bool" where
  "fge a b = fle b a"

definition fne :: "ieee \<Rightarrow> ieee \<Rightarrow> bool" where
  "fne a b = (\<not> feq a b)"


text \<open>The conversion \<open>(float64) u\<close> of a \<open>uint32\<close>, which is exact.\<close>

definition ofUint32 :: "uint32 \<Rightarrow> ieee" where
  "ofUint32 u = Finite (real (unat u))"

section \<open>Results of operations that can fail\<close>

text \<open>
  An access outside an array or through a null pointer is undefined behaviour in C++; the
  model stops there with \<open>Fault\<close>.  A loop with no bound of its own runs on fuel: its result
  is an option, \<open>None\<close> when the fuel is used up.
\<close>

datatype 'a result = Ok 'a | Fault

fun bindR :: "'a result \<Rightarrow> ('a \<Rightarrow> 'b result) \<Rightarrow> 'b result" where
  "bindR (Ok x) f = f x"
| "bindR Fault f = Fault"

definition readAt :: "'a list \<Rightarrow> nat \<Rightarrow> 'a result" where
  "readAt xs i = (if i < length xs then Ok (xs ! i) else Fault)"

definition writeAt :: "'a list \<Rightarrow> nat \<Rightarrow> 'a \<Rightarrow> 'a list result" where
  "writeAt xs i v = (if i < length xs then Ok (xs[i := v]) else Fault)"

text \<open>Reading at a position of type \<open>intp\<close>.\<close>

definition readPos :: "'a list \<Rightarrow> intp \<Rightarrow> 'a result" where
  "readPos xs p = (if 0 \<le> p then readAt xs (nat p) else Fault)"

section \<open>The label matrix\<close>

text \<open>
  \<open>CContiguousLabelMatrix\<close>: the time slot of every example, the first example of every
  time slot followed by the number of examples, and the ground truth of every time slot.
\<close>

record CContiguousLabelMatrix =
  timeSlots :: "uint32 list"
  indices :: "uint32 list"
  groundTruthValues :: "uint32 list"

definition getNumRows :: "CContiguousLabelMatrix \<Rightarrow> nat" where
  "getNumRows lm = length (timeSlots lm)"

definition getNumTimeSlots :: "CContiguousLabelMatrix \<Rightarrow> nat" where
  "getNumTimeSlots lm = length (groundTruthValues lm)"

section \<open>Rule evaluation\<close>

text \<open>
  The score vector of \<open>RegularizedLabelWiseRuleEvaluation\<close>: the predicted scores, which
  the constructor sets to \<open>1.0\<close>, and the overall quality score.
\<close>

record DenseLabelWiseScoreVector =
  scores :: "float64 list"
  overallQualityScore :: float64

record PearsonSums =
  xSum :: float64
  xSquaredSum :: float64
  ySum :: float64
  ySquaredSum :: float64
  productSum :: float64

definition pearsonStep :: "uint32 \<Rightarrow> uint32 \<Rightarrow> PearsonSums \<Rightarrow> PearsonSums" where
  "pearsonStep gx py s =
     (let x = ofUint32 gx; y = ofUint32 py in
      \<lparr> xSum = fadd (xSum s) x,
        xSquaredSum = fadd (xSquaredSum s) (fpow2 x),
        ySum = fadd (ySum s) y,
        ySquaredSum = fadd (ySquaredSum s) (fpow2 y),
        productSum = fadd (productSum s) (fmul x y) \<rparr>)"

text \<open>The loop \<open>for (uint32 i = 0; i < numTimeSlots; i++)\<close> of \<open>calculateLabelWisePrediction\<close>.\<close>

function pearsonLoop ::
  "uint32 list \<Rightarrow> uint32 list \<Rightarrow> nat \<Rightarrow> nat \<Rightarrow> PearsonSums \<Rightarrow> PearsonSums result" where
  "pearsonLoop gt preds i numTimeSlots s =
     (if i < numTimeSlots then
        bindR (readAt gt i) (\<lambda>gx.
        bindR (readAt preds i) (\<lambda>py.
        pearsonLoop gt preds (Suc i) numTimeSlots (pearsonStep gx py s)))
      else Ok s)"
  by pat_completeness auto
termination
  by (relation "measure (\<lambda>(gt, preds, i, n, s). n - i)") auto

declare pearsonLoop.simps [simp del]

definition calculateLabelWisePrediction ::
  "float64 list \<Rightarrow> uint32 list \<Rightarrow> CContiguousLabelMatrix \<Rightarrow> DenseLabelWiseScoreVector result" where
  "calculateLabelWisePrediction scoreVec predictions groundTruth =
     (let numTimeSlots = length predictions in
      bindR (pearsonLoop (groundTruthValues groundTruth) predictions 0 numTimeSlots
               \<lparr> xSum = Finite 0, xSquaredSum = Finite 0, ySum = Finite 0,
                 ySquaredSum = Finite 0, productSum = Finite 0 \<rparr>) (\<lambda>s.
      let n = Finite (real numTimeSlots);
          numerator = fsub (fmul n (productSum s)) (fmul (xSum s) (ySum s));
          sqrt1 = fsqrt (fsub (fmul n (xSquaredSum s)) (fpow2 (xSum s)));
          sqrt2 = fsqrt (fsub (fmul n (ySquaredSum s)) (fpow2 (ySum s)));
          denominator = fmul sqrt1 sqrt2
      in Ok \<lparr> scores = scoreVec,
              overallQualityScore = fneg (fabs (fdiv numerator denominator)) \<rparr>))"




section \<open>Loops\<close>

text \<open>
  A \<open>for\<close> loop over the positions \<open>rs\<close>; the body either goes on to the next position or
  leaves the loop with \<open>break\<close>.
\<close>

datatype 's flow = Continue 's | Break 's

primrec forLoop :: "'i list \<Rightarrow> ('i \<Rightarrow> 's \<Rightarrow> 's flow result) \<Rightarrow> 's \<Rightarrow> 's result" where
  "forLoop [] body s = Ok s"
| "forLoop (r # rs) body s =
     (case body r s of
        Ok (Continue s') \<Rightarrow> forLoop rs body s'
      | Ok (Break s') \<Rightarrow> Ok s'
      | Fault \<Rightarrow> Fault)"

text \<open>A loop whose body has no \<open>break\<close>.\<close>

primrec forEach :: "'i list \<Rightarrow> ('i \<Rightarrow> 's \<Rightarrow> 's result) \<Rightarrow> 's \<Rightarrow> 's result" where
  "forEach [] body s = Ok s"
| "forEach (r # rs) body s = bindR (body r s) (forEach rs body)"

section \<open>Label-wise statistics\<close>

record LabelWiseStatistics =
  coverageCountVector :: "uint32 list"
  predictionVector :: "uint32 list"
  totalPredictionVector :: "uint32 list"
  labelMatrix :: CContiguousLabelMatrix

text \<open>\<open>CContiguousLabelMatrix::getNumCols\<close> returns 1.\<close>

definition getNumCols :: "CContiguousLabelMatrix \<Rightarrow> nat" where
  "getNumCols lm = 1"

text \<open>
  The constructor.  \<open>DenseVector(n, true)\<close> is \<open>calloc\<close>, all zero; \<open>DenseVector(n)\<close> is
  \<open>malloc\<close>, whose block is not written: \<open>uninitialised k\<close> is what the block holds at
  offset \<open>k\<close>.
\<close>

definition newLabelWiseStatistics ::
  "CContiguousLabelMatrix \<Rightarrow> (nat \<Rightarrow> uint32) \<Rightarrow> LabelWiseStatistics" where
  "newLabelWiseStatistics lm uninitialised =
     \<lparr> coverageCountVector = replicate (getNumRows lm) 0,
       predictionVector = replicate (getNumTimeSlots lm) 0,
       totalPredictionVector = map uninitialised [0..<getNumTimeSlots lm],
       labelMatrix = lm \<rparr>"

definition getNumStatistics :: "LabelWiseStatistics \<Rightarrow> nat" where
  "getNumStatistics st = getNumRows (labelMatrix st)"

text \<open>
  Modelled from the spec: \<open>copyArray\<close> of \<open>common/data/arrays.hpp\<close>, which copies the first
  \<open>numElements\<close> elements of one array into another.
\<close>

definition copyArray :: "'a list \<Rightarrow> 'a list \<Rightarrow> nat \<Rightarrow> 'a list result" where
  "copyArray src dst numElements =
     (if numElements \<le> length src \<and> numElements \<le> length dst
      then Ok (take numElements src @ drop numElements dst) else Fault)"

definition resetCoveredStatistics :: "LabelWiseStatistics \<Rightarrow> LabelWiseStatistics result" where
  "resetCoveredStatistics st =
     bindR (copyArray (predictionVector st) (totalPredictionVector st)
              (length (totalPredictionVector st))) (\<lambda>tp.
     Ok (st\<lparr>totalPredictionVector := tp\<rparr>))"

definition updateCoveredStatistic ::
  "uint32 \<Rightarrow> float64 \<Rightarrow> bool \<Rightarrow> LabelWiseStatistics \<Rightarrow> LabelWiseStatistics result" where
  "updateCoveredStatistic statisticIndex weight remove st =
     bindR (readAt (coverageCountVector st) (unat statisticIndex)) (\<lambda>c.
     if c = 0 then
       bindR (readAt (timeSlots (labelMatrix st)) (unat statisticIndex)) (\<lambda>timeSlot.
       bindR (readAt (totalPredictionVector st) (unat timeSlot)) (\<lambda>v.
       bindR (writeAt (totalPredictionVector st) (unat timeSlot)
                (if remove then v - 1 else v + 1)) (\<lambda>tp.
       Ok (st\<lparr>totalPredictionVector := tp\<rparr>))))
     else Ok st)"

definition resetSampledStatistics :: "LabelWiseStatistics \<Rightarrow> LabelWiseStatistics result" where
  "resetSampledStatistics st = resetCoveredStatistics st"

definition addSampledStatistic ::
  "uint32 \<Rightarrow> float64 \<Rightarrow> LabelWiseStatistics \<Rightarrow> LabelWiseStatistics result" where
  "addSampledStatistic statisticIndex weight st =
     updateCoveredStatistic statisticIndex weight False st"

definition increaseCoverageCount :: "uint32 \<Rightarrow> LabelWiseStatistics \<Rightarrow> LabelWiseStatistics result" where
  "increaseCoverageCount statisticIndex st =
     bindR (readAt (coverageCountVector st) (unat statisticIndex)) (\<lambda>c.
     bindR (writeAt (coverageCountVector st) (unat statisticIndex) (c + 1)) (\<lambda>cv.
     Ok (st\<lparr>coverageCountVector := cv\<rparr>)))"

text \<open>
  The inner loop of \<open>updatePredictions\<close>: \<open>for (uint32 j = start; j < end; j++)\<close> counts the
  examples whose coverage count is positive.
\<close>

definition countCovered :: "uint32 list \<Rightarrow> uint32 \<Rightarrow> uint32 \<Rightarrow> uint32 result" where
  "countCovered countIterator start end' =
     forEach [unat start..<unat end'] (\<lambda>j prediction.
       bindR (readAt countIterator j) (\<lambda>c.
       Ok (if 0 < c then prediction + 1 else prediction))) 0"

definition updatePredictions :: "LabelWiseStatistics \<Rightarrow> LabelWiseStatistics result" where
  "updatePredictions st =
     (let indicesIt = indices (labelMatrix st);
          numTimeSlots = getNumTimeSlots (labelMatrix st) in
      bindR (forEach [0..<numTimeSlots] (\<lambda>i predictionIterator.
               bindR (readAt indicesIt i) (\<lambda>start.
               bindR (readAt indicesIt (i + 1)) (\<lambda>end'.
               bindR (countCovered (coverageCountVector st) start end') (\<lambda>prediction.
               writeAt predictionIterator i prediction))))
             (predictionVector st)) (\<lambda>pv.
      Ok (st\<lparr>predictionVector := pv\<rparr>)))"

definition getPredictions :: "LabelWiseStatistics \<Rightarrow> uint32 list" where
  "getPredictions st = predictionVector st"

definition getGroundTruth :: "LabelWiseStatistics \<Rightarrow> uint32 list" where
  "getGroundTruth st = groundTruthValues (labelMatrix st)"

subsection \<open>Statistics subset\<close>

record StatisticsSubset =
  coveredPredictionVector :: "uint32 list"
  uncoveredPredictionVector :: "uint32 list"
  accumulatedCoveredPredictionVector :: "uint32 list option"
  accumulatedUncoveredPredictionVector :: "uint32 list option"

text \<open>The constructor of \<open>StatisticsSubset\<close>, called by \<open>LabelWiseStatistics::createSubset\<close>.\<close>

definition createStatisticsSubset :: "LabelWiseStatistics \<Rightarrow> StatisticsSubset" where
  "createStatisticsSubset st =
     \<lparr> coveredPredictionVector = predictionVector st,
       uncoveredPredictionVector = totalPredictionVector st,
       accumulatedCoveredPredictionVector = None,
       accumulatedUncoveredPredictionVector = None \<rparr>"

text \<open>\<open>v[timeSlot] += 1\<close> and \<open>v[timeSlot] -= 1\<close> on a vector of \<open>uint32\<close>.\<close>

definition increment :: "uint32 list \<Rightarrow> uint32 \<Rightarrow> uint32 list result" where
  "increment v timeSlot = bindR (readAt v (unat timeSlot)) (\<lambda>x. writeAt v (unat timeSlot) (x + 1))"

definition decrement :: "uint32 list \<Rightarrow> uint32 \<Rightarrow> uint32 list result" where
  "decrement v timeSlot = bindR (readAt v (unat timeSlot)) (\<lambda>x. writeAt v (unat timeSlot) (x - 1))"

definition addToMissing ::
  "LabelWiseStatistics \<Rightarrow> uint32 \<Rightarrow> float64 \<Rightarrow> StatisticsSubset \<Rightarrow> StatisticsSubset result" where
  "addToMissing st statisticIndex weight sub =
     bindR (readAt (coverageCountVector st) (unat statisticIndex)) (\<lambda>c.
     if c = 0 then
       bindR (readAt (timeSlots (labelMatrix st)) (unat statisticIndex)) (\<lambda>timeSlot.
       bindR (decrement (uncoveredPredictionVector sub) timeSlot) (\<lambda>u.
       Ok (sub\<lparr>uncoveredPredictionVector := u\<rparr>)))
     else Ok sub)"

definition addToSubset ::
  "LabelWiseStatistics \<Rightarrow> uint32 \<Rightarrow> float64 \<Rightarrow> StatisticsSubset \<Rightarrow> StatisticsSubset result" where
  "addToSubset st statisticIndex weight sub =
     bindR (readAt (coverageCountVector st) (unat statisticIndex)) (\<lambda>c.
     if c = 0 then
       bindR (readAt (timeSlots (labelMatrix st)) (unat statisticIndex)) (\<lambda>timeSlot.
       bindR (increment (coveredPredictionVector sub) timeSlot) (\<lambda>cv.
       bindR (decrement (uncoveredPredictionVector sub) timeSlot) (\<lambda>uv.
       case accumulatedCoveredPredictionVector sub of
         None \<Rightarrow> Ok (sub\<lparr>coveredPredictionVector := cv, uncoveredPredictionVector := uv\<rparr>)
       | Some ac \<Rightarrow>
           (case accumulatedUncoveredPredictionVector sub of
              None \<Rightarrow> Fault
            | Some au \<Rightarrow>
                bindR (increment ac timeSlot) (\<lambda>ac'.
                bindR (decrement au timeSlot) (\<lambda>au'.
                Ok (sub\<lparr>coveredPredictionVector := cv, uncoveredPredictionVector := uv,
                        accumulatedCoveredPredictionVector := Some ac',
                        accumulatedUncoveredPredictionVector := Some au'\<rparr>)))))))
     else Ok sub)"

definition resetSubset :: "LabelWiseStatistics \<Rightarrow> StatisticsSubset \<Rightarrow> StatisticsSubset result" where
  "resetSubset st sub =
     (let sub1 = (if accumulatedCoveredPredictionVector sub = None
                  then sub\<lparr>accumulatedCoveredPredictionVector := Some (coveredPredictionVector sub),
                           accumulatedUncoveredPredictionVector :=
                             Some (uncoveredPredictionVector sub)\<rparr>
                  else sub) in
      bindR (copyArray (predictionVector st) (coveredPredictionVector sub1)
               (length (coveredPredictionVector sub1))) (\<lambda>cv.
      bindR (copyArray (totalPredictionVector st) (uncoveredPredictionVector sub1)
               (length (uncoveredPredictionVector sub1))) (\<lambda>uv.
      Ok (sub1\<lparr>coveredPredictionVector := cv, uncoveredPredictionVector := uv\<rparr>))))"

text \<open>
  The scores of the rule evaluation that \<open>createSubset\<close> makes for the label indices
  \<open>FullIndexVector(numLabels)\<close>: the constructor sets every one to \<open>1.0\<close>.
\<close>

definition ruleEvaluationScores :: "LabelWiseStatistics \<Rightarrow> float64 list" where
  "ruleEvaluationScores st = replicate (getNumCols (labelMatrix st)) (Finite 1)"

text \<open>
  \<open>StatisticsSubset::calculateLabelWisePrediction(uncovered, accumulated)\<close>; an accumulated
  vector that has not been created is a null pointer.
\<close>

definition subsetCalculateLabelWisePrediction ::
  "LabelWiseStatistics \<Rightarrow> StatisticsSubset \<Rightarrow> bool \<Rightarrow> bool \<Rightarrow> DenseLabelWiseScoreVector result" where
  "subsetCalculateLabelWisePrediction st sub uncovered accumulated =
     (let predictions =
            (if uncovered
             then (if accumulated then accumulatedUncoveredPredictionVector sub
                   else Some (uncoveredPredictionVector sub))
             else (if accumulated then accumulatedCoveredPredictionVector sub
                   else Some (coveredPredictionVector sub))) in
      case predictions of
        None \<Rightarrow> Fault
      | Some p \<Rightarrow> calculateLabelWisePrediction (ruleEvaluationScores st) p (labelMatrix st))"

section \<open>Head refinement\<close>

text \<open>
  \<open>AbstractEvaluatedPrediction\<close>: the predicted scores of a head and its
  \<open>overallQualityScore\<close>.
\<close>

record AbstractEvaluatedPrediction =
  predictedScoreVector :: "float64 list"
  headQualityScore :: float64

text \<open>
  Modelled from the spec: \<open>findHead\<close> and \<open>pollHead\<close> of the head refinement
  (\<open>common/head_refinement/head_refinement_full.cpp\<close>).  \<open>findHead\<close> asks the subset for a
  candidate prediction vector, has the rule evaluation compute its quality, and returns the
  best head so far iff the candidate is strictly better than \<open>currentBest\<close> or \<open>currentBest\<close>
  is null; \<open>pollHead\<close> yields ownership of the last computed head.  The state of the head
  refinement is the head it owns, \<open>None\<close> for a null pointer.
\<close>

definition findHead ::
  "AbstractEvaluatedPrediction option \<Rightarrow> LabelWiseStatistics \<Rightarrow> StatisticsSubset \<Rightarrow> bool \<Rightarrow> bool
   \<Rightarrow> AbstractEvaluatedPrediction option
   \<Rightarrow> (AbstractEvaluatedPrediction option \<times> AbstractEvaluatedPrediction option) result" where
  "findHead currentBest st sub uncovered accumulated ownedHead =
     bindR (subsetCalculateLabelWisePrediction st sub uncovered accumulated) (\<lambda>sv.
     if (case currentBest of
           None \<Rightarrow> True
         | Some b \<Rightarrow> flt (overallQualityScore sv) (headQualityScore b))
     then (let h = \<lparr> predictedScoreVector = scores sv,
                      headQualityScore = overallQualityScore sv \<rparr>
           in Ok (Some h, Some h))
     else Ok (None, ownedHead))"

definition pollHead ::
  "AbstractEvaluatedPrediction option
   \<Rightarrow> AbstractEvaluatedPrediction option \<times> AbstractEvaluatedPrediction option" where
  "pollHead ownedHead = (ownedHead, None)"

section \<open>Feature vectors, weights and refinements\<close>

record IndexedValue =
  featureValue :: float32
  exampleIndex :: uint32

text \<open>
  \<open>FeatureVector\<close>: the (value, index) pairs, sorted by value, and the indices of the examples
  whose value is missing.
\<close>

record FeatureVector =
  elements :: "IndexedValue list"
  missingIndices :: "uint32 list"

text \<open>
  Modelled from the spec: the weight vector (\<open>common/sampling/weight_vector.hpp\<close>), a
  non-negative weight for each example, with \<open>getWeight\<close>, \<open>hasZeroWeights\<close> and
  \<open>getNumNonZeroWeights\<close>.
\<close>

type_synonym WeightVector = "nat list"

definition getWeight :: "WeightVector \<Rightarrow> uint32 \<Rightarrow> float64 result" where
  "getWeight ws i = bindR (readAt ws (unat i)) (\<lambda>w. Ok (Finite (real w)))"

definition hasZeroWeights :: "WeightVector \<Rightarrow> bool" where
  "hasZeroWeights ws = (0 \<in> set ws)"

definition getNumNonZeroWeights :: "WeightVector \<Rightarrow> uint32" where
  "getNumNonZeroWeights ws = word_of_nat (length (filter (\<lambda>w. w \<noteq> 0) ws))"

datatype Comparator = LEQ | GR | EQ | NEQ

text \<open>
  \<open>Refinement\<close>: a condition (feature, comparator, threshold, the positions \<open>start\<close>, \<open>end\<close>
  and \<open>previous\<close> into the feature vector, \<open>covered\<close>, \<open>numCovered\<close>) and the head.
\<close>

record Refinement =
  featureIndex :: uint32
  start :: intp
  endPos :: intp
  previous :: intp
  numCovered :: uint32
  covered :: bool
  comparator :: Comparator
  threshold :: float32
  headPtr :: "AbstractEvaluatedPrediction option"

text \<open>\<open>std::make_unique<Refinement>()\<close>: no head; the other fields are written before they are read.\<close>

definition emptyRefinement :: Refinement where
  "emptyRefinement =
     \<lparr> featureIndex = 0, start = 0, endPos = 0, previous = 0, numCovered = 0, covered = False,
       comparator = LEQ, threshold = Finite 0, headPtr = None \<rparr>"

text \<open>
  Modelled from the spec: \<open>arithmeticMean\<close> of \<open>common/math/math.hpp\<close>, the arithmetic mean
  of two values.
\<close>

definition arithmeticMean :: "float32 \<Rightarrow> float32 \<Rightarrow> float32" where
  "arithmeticMean small large = fdiv (fadd small large) (Finite 2)"

definition USE_NEQ :: bool where
  "USE_NEQ = False"

definition USE_LEQ :: bool where
  "USE_LEQ = True"

section \<open>Exact refinement search\<close>

text \<open>
  What \<open>findRefinement\<close> reads and does not change: the result of the callback (statistics,
  weights, feature vector), the fields \<open>numExamples_\<close> and \<open>nominal_\<close> of the object, and
  \<open>minCoverage\<close>.
\<close>

record SweepContext =
  ctxStatistics :: LabelWiseStatistics
  ctxWeights :: WeightVector
  ctxVector :: FeatureVector
  ctxNumExamples :: uint32
  ctxNominal :: bool
  ctxMinCoverage :: uint32

text \<open>
  The local variables of \<open>findRefinement\<close>.  \<open>ownedHead\<close> is the head that the head
  refinement owns.  \<open>evaluated\<close> is the trace of the search: the \<open>numCovered\<close> of each
  candidate for which \<open>findHead\<close> has been called, in order.
\<close>

record SweepState =
  refinementPtr :: Refinement
  bestHead :: "AbstractEvaluatedPrediction option"
  ownedHead :: "AbstractEvaluatedPrediction option"
  statisticsSubsetPtr :: StatisticsSubset
  numExamples :: uint32
  firstR :: intp
  lastNegativeR :: intp
  previousThreshold :: float32
  previousR :: intp
  curR :: intp
  accumulatedNumExamples :: uint32
  previousThresholdNegative :: float32
  previousRNegative :: intp
  accumulatedNumExamplesNegative :: uint32
  evaluated :: "uint32 list"

text \<open>
  One candidate: \<open>if (numCovered >= minCoverage && enabled) { head = findHead(...); if (head
  != nullptr) { bestHead = head; refinementPtr->... = ...; } }\<close>.
\<close>

definition evaluateCandidate ::
  "SweepContext \<Rightarrow> bool \<Rightarrow> bool \<Rightarrow> bool \<Rightarrow> uint32 \<Rightarrow> (Refinement \<Rightarrow> Refinement) \<Rightarrow> SweepState
   \<Rightarrow> SweepState result" where
  "evaluateCandidate ctx enabled uncovered accumulated nc assign s =
     (if ctxMinCoverage ctx \<le> nc \<and> enabled then
        bindR (findHead (bestHead s) (ctxStatistics ctx) (statisticsSubsetPtr s) uncovered
                 accumulated (ownedHead s)) (\<lambda>(head, owned).
        let s1 = s\<lparr>ownedHead := owned, evaluated := evaluated s @ [nc]\<rparr> in
        Ok (case head of
              None \<Rightarrow> s1
            | Some h \<Rightarrow> s1\<lparr>bestHead := Some h, refinementPtr := assign (refinementPtr s1)\<rparr>))
      else Ok s)"

definition assignCondition ::
  "intp \<Rightarrow> intp \<Rightarrow> intp \<Rightarrow> uint32 \<Rightarrow> bool \<Rightarrow> Comparator \<Rightarrow> float32 \<Rightarrow> Refinement \<Rightarrow> Refinement" where
  "assignCondition a e p nc cov cmp thr rf =
     rf\<lparr>start := a, endPos := e, previous := p, numCovered := nc, covered := cov,
        comparator := cmp, threshold := thr\<rparr>"

text \<open>Adding the example at the current position to the subset (\<open>addToSubset\<close>).\<close>

definition sweepAdd :: "SweepContext \<Rightarrow> uint32 \<Rightarrow> float64 \<Rightarrow> SweepState \<Rightarrow> SweepState result" where
  "sweepAdd ctx i weight s =
     bindR (addToSubset (ctxStatistics ctx) i weight (statisticsSubsetPtr s)) (\<lambda>sub.
     Ok (s\<lparr>statisticsSubsetPtr := sub\<rparr>))"

definition sweepReset :: "SweepContext \<Rightarrow> SweepState \<Rightarrow> SweepState result" where
  "sweepReset ctx s =
     bindR (resetSubset (ctxStatistics ctx) (statisticsSubsetPtr s)) (\<lambda>sub.
     Ok (s\<lparr>statisticsSubsetPtr := sub\<rparr>))"

subsection \<open>Examples with feature values \<open>< 0\<close>, in ascending order\<close>

text \<open>The first loop: up to the first example with a positive weight.\<close>

definition negativeFirstBody :: "SweepContext \<Rightarrow> intp \<Rightarrow> SweepState \<Rightarrow> SweepState flow result" where
  "negativeFirstBody ctx pos s0 =
     (let s = s0\<lparr>curR := pos\<rparr> in
      bindR (readPos (elements (ctxVector ctx)) pos) (\<lambda>e.
      let currentThreshold = featureValue e in
      if fge currentThreshold (Finite 0) then Ok (Break s)
      else
        (let s1 = s\<lparr>lastNegativeR := pos\<rparr>; i = exampleIndex e in
         bindR (getWeight (ctxWeights ctx) i) (\<lambda>weight.
         if fgt weight (Finite 0) then
           bindR (sweepAdd ctx i weight s1) (\<lambda>s2.
           Ok (Break (s2\<lparr>numExamples := numExamples s2 + 1,
                          previousThreshold := currentThreshold, previousR := pos\<rparr>)))
         else Ok (Continue s1)))))"

text \<open>The two candidates between two different values, and the reset for a nominal feature.\<close>

definition negativeSplit :: "SweepContext \<Rightarrow> intp \<Rightarrow> float32 \<Rightarrow> SweepState \<Rightarrow> SweepState result" where
  "negativeSplit ctx pos currentThreshold s =
     (let nominal = ctxNominal ctx in
      bindR (evaluateCandidate ctx (nominal \<or> USE_LEQ) False False (numExamples s)
               (assignCondition (firstR s) pos (previousR s) (numExamples s) True
                  (if nominal then EQ else LEQ)
                  (if nominal then previousThreshold s
                   else arithmeticMean (previousThreshold s) currentThreshold)) s) (\<lambda>s1.
      bindR (evaluateCandidate ctx (\<not> nominal \<or> USE_NEQ) True False
               (ctxNumExamples ctx - numExamples s1)
               (assignCondition (firstR s1) pos (previousR s1)
                  (ctxNumExamples ctx - numExamples s1) False
                  (if nominal then NEQ else GR)
                  (if nominal then previousThreshold s1
                   else arithmeticMean (previousThreshold s1) currentThreshold)) s1) (\<lambda>s2.
      if nominal then
        bindR (sweepReset ctx s2) (\<lambda>s3. Ok (s3\<lparr>numExamples := 0, firstR := pos\<rparr>))
      else Ok s2)))"

text \<open>The second loop: the remaining examples with feature values \<open>< 0\<close>.\<close>

definition negativeBody :: "SweepContext \<Rightarrow> intp \<Rightarrow> SweepState \<Rightarrow> SweepState flow result" where
  "negativeBody ctx pos s0 =
     (let s = s0\<lparr>curR := pos\<rparr> in
      bindR (readPos (elements (ctxVector ctx)) pos) (\<lambda>e.
      let currentThreshold = featureValue e in
      if fge currentThreshold (Finite 0) then Ok (Break s)
      else
        (let s1 = s\<lparr>lastNegativeR := pos\<rparr>; i = exampleIndex e in
         bindR (getWeight (ctxWeights ctx) i) (\<lambda>weight.
         if fgt weight (Finite 0) then
           bindR (if fne (previousThreshold s1) currentThreshold
                  then negativeSplit ctx pos currentThreshold s1 else Ok s1) (\<lambda>s2.
           bindR (sweepAdd ctx i weight
                    (s2\<lparr>previousThreshold := currentThreshold, previousR := pos\<rparr>)) (\<lambda>s3.
           Ok (Continue (s3\<lparr>numExamples := numExamples s3 + 1,
                             accumulatedNumExamples := accumulatedNumExamples s3 + 1\<rparr>))))
         else Ok (Continue s1)))))"

text \<open>The last group of a nominal feature: \<open>f == previous_threshold\<close> and its complement.\<close>

definition negativeLastGroup :: "SweepContext \<Rightarrow> SweepState \<Rightarrow> SweepState result" where
  "negativeLastGroup ctx s =
     (if ctxNominal ctx \<and> 0 < numExamples s
         \<and> (numExamples s < accumulatedNumExamples s
             \<or> accumulatedNumExamples s < ctxNumExamples ctx) then
        bindR (evaluateCandidate ctx True False False (numExamples s)
                 (assignCondition (firstR s) (lastNegativeR s + 1) (previousR s) (numExamples s)
                    True EQ (previousThreshold s)) s) (\<lambda>s1.
        evaluateCandidate ctx USE_NEQ True False (ctxNumExamples ctx - numExamples s1)
          (assignCondition (firstR s1) (lastNegativeR s1 + 1) (previousR s1)
             (ctxNumExamples ctx - numExamples s1) False NEQ (previousThreshold s1)) s1)
      else Ok s)"

definition negativePhase :: "SweepContext \<Rightarrow> SweepState \<Rightarrow> SweepState result" where
  "negativePhase ctx s =
     (let numElements = int (length (elements (ctxVector ctx))) in
      bindR (forLoop [0..numElements - 1] (negativeFirstBody ctx) s) (\<lambda>s1.
      let s2 = s1\<lparr>accumulatedNumExamples := numExamples s1\<rparr> in
      if 0 < numExamples s2 then
        bindR (forLoop [curR s2 + 1..numElements - 1] (negativeBody ctx) s2) (\<lambda>s3.
        bindR (negativeLastGroup ctx s3) (\<lambda>s4.
        sweepReset ctx s4))
      else Ok s2))"

subsection \<open>Examples with feature values \<open>\<ge> 0\<close>, in descending order\<close>

definition nonNegativeFirstBody :: "SweepContext \<Rightarrow> intp \<Rightarrow> SweepState \<Rightarrow> SweepState flow result" where
  "nonNegativeFirstBody ctx pos s0 =
     (let s = s0\<lparr>curR := pos\<rparr> in
      bindR (readPos (elements (ctxVector ctx)) pos) (\<lambda>e.
      let i = exampleIndex e in
      bindR (getWeight (ctxWeights ctx) i) (\<lambda>weight.
      if fgt weight (Finite 0) then
        bindR (sweepAdd ctx i weight s) (\<lambda>s1.
        Ok (Break (s1\<lparr>numExamples := numExamples s1 + 1,
                       previousThreshold := featureValue e, previousR := pos\<rparr>)))
      else Ok (Continue s))))"

definition nonNegativeSplit :: "SweepContext \<Rightarrow> intp \<Rightarrow> float32 \<Rightarrow> SweepState \<Rightarrow> SweepState result" where
  "nonNegativeSplit ctx pos currentThreshold s =
     (let nominal = ctxNominal ctx in
      bindR (evaluateCandidate ctx True False False (numExamples s)
               (assignCondition (firstR s) pos (previousR s) (numExamples s) True
                  (if nominal then EQ else GR)
                  (if nominal then previousThreshold s
                   else arithmeticMean currentThreshold (previousThreshold s))) s) (\<lambda>s1.
      bindR (evaluateCandidate ctx (if nominal then USE_NEQ else USE_LEQ) True False
               (ctxNumExamples ctx - numExamples s1)
               (assignCondition (firstR s1) pos (previousR s1)
                  (ctxNumExamples ctx - numExamples s1) False
                  (if nominal then NEQ else LEQ)
                  (if nominal then previousThreshold s1
                   else arithmeticMean currentThreshold (previousThreshold s1))) s1) (\<lambda>s2.
      if nominal then
        bindR (sweepReset ctx s2) (\<lambda>s3. Ok (s3\<lparr>numExamples := 0, firstR := pos\<rparr>))
      else Ok s2)))"

definition nonNegativeBody :: "SweepContext \<Rightarrow> intp \<Rightarrow> SweepState \<Rightarrow> SweepState flow result" where
  "nonNegativeBody ctx pos s0 =
     (let s = s0\<lparr>curR := pos\<rparr> in
      bindR (readPos (elements (ctxVector ctx)) pos) (\<lambda>e.
      let i = exampleIndex e in
      bindR (getWeight (ctxWeights ctx) i) (\<lambda>weight.
      if fgt weight (Finite 0) then
        (let currentThreshold = featureValue e in
         bindR (if fne (previousThreshold s) currentThreshold
                then nonNegativeSplit ctx pos currentThreshold s else Ok s) (\<lambda>s2.
         bindR (sweepAdd ctx i weight
                  (s2\<lparr>previousThreshold := currentThreshold, previousR := pos\<rparr>)) (\<lambda>s3.
         Ok (Continue (s3\<lparr>numExamples := numExamples s3 + 1,
                           accumulatedNumExamples := accumulatedNumExamples s3 + 1\<rparr>)))))
      else Ok (Continue s))))"

definition nonNegativeLastGroup :: "SweepContext \<Rightarrow> SweepState \<Rightarrow> SweepState result" where
  "nonNegativeLastGroup ctx s =
     (if ctxNominal ctx \<and> 0 < numExamples s \<and> numExamples s < accumulatedNumExamples s then
        bindR (evaluateCandidate ctx True False False (numExamples s)
                 (assignCondition (firstR s) (lastNegativeR s) (previousR s) (numExamples s)
                    True EQ (previousThreshold s)) s) (\<lambda>s1.
        evaluateCandidate ctx USE_NEQ True False (ctxNumExamples ctx - numExamples s1)
          (assignCondition (firstR s1) (lastNegativeR s1) (previousR s1)
             (ctxNumExamples ctx - numExamples s1) False NEQ (previousThreshold s1)) s1)
      else Ok s)"

definition nonNegativePhase :: "SweepContext \<Rightarrow> SweepState \<Rightarrow> SweepState result" where
  "nonNegativePhase ctx s0 =
     (let numElements = int (length (elements (ctxVector ctx)));
          s = s0\<lparr>previousThresholdNegative := previousThreshold s0,
                 previousRNegative := previousR s0,
                 accumulatedNumExamplesNegative := accumulatedNumExamples s0,
                 numExamples := 0, firstR := numElements - 1\<rparr> in
      bindR (forLoop (rev [lastNegativeR s + 1..firstR s]) (nonNegativeFirstBody ctx) s) (\<lambda>s1.
      let s2 = s1\<lparr>accumulatedNumExamples := numExamples s1\<rparr> in
      bindR (if 0 < numExamples s2
             then forLoop (rev [lastNegativeR s2 + 1..curR s2 - 1]) (nonNegativeBody ctx) s2
             else Ok s2) (\<lambda>s3.
      nonNegativeLastGroup ctx s3)))"

subsection \<open>Sparse (zero) feature values\<close>

definition sparsePhase :: "SweepContext \<Rightarrow> SweepState \<Rightarrow> SweepState result" where
  "sparsePhase ctx s =
     (let nominal = ctxNominal ctx;
          numElements = int (length (elements (ctxVector ctx)));
          totalAccumulatedNumExamples =
            accumulatedNumExamplesNegative s + accumulatedNumExamples s in
      if 0 < totalAccumulatedNumExamples \<and> totalAccumulatedNumExamples < ctxNumExamples ctx then
        bindR (if nominal
               then bindR (sweepReset ctx s) (\<lambda>s1. Ok (s1\<lparr>firstR := numElements - 1\<rparr>))
               else Ok s) (\<lambda>s1.
        let nc1 = (if nominal then totalAccumulatedNumExamples else accumulatedNumExamples s1) in
        bindR (evaluateCandidate ctx (\<not> nominal \<or> USE_NEQ) False nominal nc1
                 (if nominal
                  then assignCondition (firstR s1) (- 1) (- 1) nc1 True NEQ (Finite 0)
                  else assignCondition (firstR s1) (lastNegativeR s1) (previousR s1) nc1 True GR
                         (fmul (previousThreshold s1) (Finite (1 / 2)))) s1) (\<lambda>s2.
        let nc2 = ctxNumExamples ctx
                    - (if nominal then totalAccumulatedNumExamples
                       else accumulatedNumExamples s2) in
        evaluateCandidate ctx (nominal \<or> USE_LEQ) True nominal nc2
          (if nominal
           then assignCondition (firstR s2) (- 1) (- 1) nc2 False EQ (Finite 0)
           else assignCondition (firstR s2) (lastNegativeR s2) (previousR s2) nc2 False LEQ
                  (fmul (previousThreshold s2) (Finite (1 / 2)))) s2))
      else Ok s)"

subsection \<open>Numerical features: between the values \<open>< 0\<close> and the others\<close>

definition separatingPhase :: "SweepContext \<Rightarrow> SweepState \<Rightarrow> SweepState result" where
  "separatingPhase ctx s =
     (let totalAccumulatedNumExamples =
            accumulatedNumExamplesNegative s + accumulatedNumExamples s;
          thr = (if totalAccumulatedNumExamples < ctxNumExamples ctx
                 then fmul (previousThresholdNegative s) (Finite (1 / 2))
                 else arithmeticMean (previousThresholdNegative s) (previousThreshold s)) in
      if \<not> ctxNominal ctx \<and> 0 < accumulatedNumExamplesNegative s
         \<and> accumulatedNumExamplesNegative s < ctxNumExamples ctx then
        bindR (evaluateCandidate ctx USE_LEQ False True (accumulatedNumExamplesNegative s)
                 (assignCondition 0 (lastNegativeR s + 1) (previousRNegative s)
                    (accumulatedNumExamplesNegative s) True LEQ thr) s) (\<lambda>s1.
        evaluateCandidate ctx True True True
          (ctxNumExamples ctx - accumulatedNumExamplesNegative s1)
          (assignCondition 0 (lastNegativeR s1 + 1) (previousRNegative s1)
             (ctxNumExamples ctx - accumulatedNumExamplesNegative s1) False GR thr) s1)
      else Ok s)"

subsection \<open>\<open>findRefinement\<close>\<close>

definition initialSweepState ::
  "uint32 \<Rightarrow> AbstractEvaluatedPrediction option \<Rightarrow> StatisticsSubset \<Rightarrow> SweepState" where
  "initialSweepState featureIdx currentHead sub =
     \<lparr> refinementPtr = emptyRefinement\<lparr>featureIndex := featureIdx\<rparr>,
       bestHead = currentHead, ownedHead = None, statisticsSubsetPtr = sub,
       numExamples = 0, firstR = 0, lastNegativeR = - 1, previousThreshold = Finite 0,
       previousR = 0, curR = 0, accumulatedNumExamples = 0,
       previousThresholdNegative = Finite 0, previousRNegative = 0,
       accumulatedNumExamplesNegative = 0, evaluated = [] \<rparr>"

text \<open>The loop over the missing indices, which comes first.\<close>

definition addMissing :: "SweepContext \<Rightarrow> StatisticsSubset \<Rightarrow> StatisticsSubset result" where
  "addMissing ctx sub =
     forEach (missingIndices (ctxVector ctx)) (\<lambda>i sub'.
       bindR (getWeight (ctxWeights ctx) i) (\<lambda>weight.
       addToMissing (ctxStatistics ctx) i weight sub')) sub"

definition findRefinement ::
  "SweepContext \<Rightarrow> uint32 \<Rightarrow> AbstractEvaluatedPrediction option \<Rightarrow> SweepState result" where
  "findRefinement ctx featureIdx currentHead =
     bindR (addMissing ctx (createStatisticsSubset (ctxStatistics ctx))) (\<lambda>sub.
     bindR (negativePhase ctx (initialSweepState featureIdx currentHead sub)) (\<lambda>s1.
     bindR (nonNegativePhase ctx s1) (\<lambda>s2.
     bindR (sparsePhase ctx s2) (\<lambda>s3.
     bindR (separatingPhase ctx s3) (\<lambda>s4.
     let (head, owned) = pollHead (ownedHead s4) in
     Ok (s4\<lparr>refinementPtr := (refinementPtr s4)\<lparr>headPtr := head\<rparr>, ownedHead := owned\<rparr>))))))"

section \<open>Thresholds\<close>

text \<open>
  Modelled from the spec: the coverage mask (\<open>common/thresholds/coverage_mask.cpp\<close>), an
  array \<open>M\<close> of length \<open>N\<close> paired with a scalar \<open>target\<close>; example \<open>i\<close> is covered iff
  \<open>M[i] == target\<close>.  A new mask is all zero with target zero.
\<close>

record CoverageMask =
  maskArray :: "uint32 list"
  maskTarget :: uint32

definition newCoverageMask :: "nat \<Rightarrow> CoverageMask" where
  "newCoverageMask numElements = \<lparr> maskArray = replicate numElements 0, maskTarget = 0 \<rparr>"

definition isCovered :: "CoverageMask \<Rightarrow> nat \<Rightarrow> bool result" where
  "isCovered m i = bindR (readAt (maskArray m) i) (\<lambda>v. Ok (v = maskTarget m))"

definition setTarget :: "uint32 \<Rightarrow> CoverageMask \<Rightarrow> CoverageMask" where
  "setTarget t m = m\<lparr>maskTarget := t\<rparr>"

definition markExample :: "uint32 \<Rightarrow> uint32 \<Rightarrow> CoverageMask \<Rightarrow> CoverageMask result" where
  "markExample i numConds m =
     bindR (writeAt (maskArray m) (unat i) numConds) (\<lambda>a. Ok (m\<lparr>maskArray := a\<rparr>))"

record FilteredCacheEntry =
  vectorPtr :: "FeatureVector option"
  entryNumConditions :: uint32

definition newFilteredCacheEntry :: FilteredCacheEntry where
  "newFilteredCacheEntry = \<lparr> vectorPtr = None, entryNumConditions = 0 \<rparr>"

subsection \<open>\<open>adjustSplit\<close>\<close>

text \<open>
  \<open>numSteps\<close> and the position \<open>r\<close> are \<open>uint32\<close>: the conversions from \<open>intp\<close> are taken
  modulo \<open>2 ^ 32\<close>.
\<close>

definition adjustSplit :: "FeatureVector \<Rightarrow> intp \<Rightarrow> intp \<Rightarrow> float32 \<Rightarrow> intp result" where
  "adjustSplit featureVector conditionEnd conditionPrevious thr =
     (let ascending = conditionEnd < conditionPrevious;
          direction = (if ascending then 1 else - 1);
          startPos = conditionEnd + direction;
          numSteps = nat (\<bar>startPos - conditionPrevious\<bar> mod 2 ^ 32) in
      forLoop [0..<numSteps] (\<lambda>i adjustedPosition.
        let rPos = nat ((startPos + int i * direction) mod 2 ^ 32) in
        bindR (readAt (elements featureVector) rPos) (\<lambda>e.
        let adjust = (if ascending then fle (featureValue e) thr
                      else fgt (featureValue e) thr) in
        if adjust then Ok (Continue (int rPos)) else Ok (Break adjustedPosition)))
        conditionEnd)"

subsection \<open>\<open>filterCurrentVector\<close>\<close>

text \<open>
  The state that the filter functions change: the entry of the cache, the coverage mask and
  the statistics.
\<close>

record FilterState =
  fsEntry :: FilteredCacheEntry
  fsMask :: CoverageMask
  fsStatistics :: LabelWiseStatistics

text \<open>
  The array that \<open>filteredIterator\<close> writes.  At each call site the vector that is filtered
  is the vector of the cache entry when the entry has one, so that the function then works
  in place; otherwise a vector of \<open>numElements\<close> elements is allocated, with no missing
  indices.  \<open>filler\<close> stands for the content of the new elements.
\<close>

definition filteredArray :: "FeatureVector \<Rightarrow> FilteredCacheEntry \<Rightarrow> nat \<Rightarrow> FeatureVector" where
  "filteredArray vec entry numElements =
     (case vectorPtr entry of
        None \<Rightarrow> \<lparr> elements = replicate numElements
                                 \<lparr> featureValue = Finite 0, exampleIndex = 0 \<rparr>,
                  missingIndices = [] \<rparr>
      | Some fv \<Rightarrow> fv)"

text \<open>
  \<open>filteredIterator[i] = iterator[r]; i++\<close> for the positions \<open>rs\<close>.  When the function works
  in place, \<open>iterator\<close> reads the array that is being written.
\<close>

definition retainElements ::
  "bool \<Rightarrow> IndexedValue list \<Rightarrow> int list \<Rightarrow> nat \<Rightarrow> IndexedValue list \<Rightarrow> IndexedValue list result" where
  "retainElements inPlace iterator rs i0 filtered =
     bindR (forEach rs (\<lambda>pos (i, out).
              bindR (readPos (if inPlace then out else iterator) pos) (\<lambda>e.
              bindR (writeAt out i e) (\<lambda>out'. Ok (i + 1, out')))) (i0, filtered))
       (\<lambda>(i, out). Ok out)"

text \<open>The examples at the positions \<open>rs\<close> are marked with \<open>numConditions\<close> in the mask.\<close>

definition markRange ::
  "IndexedValue list \<Rightarrow> WeightVector \<Rightarrow> uint32 \<Rightarrow> bool \<Rightarrow> int list \<Rightarrow> FilterState \<Rightarrow> FilterState result" where
  "markRange iterator ws numConds remove rs fs =
     forEach rs (\<lambda>pos fs'.
       bindR (readPos iterator pos) (\<lambda>e.
       bindR (markExample (exampleIndex e) numConds (fsMask fs')) (\<lambda>m.
       bindR (getWeight ws (exampleIndex e)) (\<lambda>weight.
       bindR (updateCoveredStatistic (exampleIndex e) weight remove (fsStatistics fs')) (\<lambda>st.
       Ok (fs'\<lparr>fsMask := m, fsStatistics := st\<rparr>)))))) fs"

definition markMissing ::
  "uint32 list \<Rightarrow> WeightVector \<Rightarrow> uint32 \<Rightarrow> FilterState \<Rightarrow> FilterState result" where
  "markMissing missing ws numConds fs =
     forEach missing (\<lambda>idx fs'.
       bindR (markExample idx numConds (fsMask fs')) (\<lambda>m.
       bindR (getWeight ws idx) (\<lambda>weight.
       bindR (updateCoveredStatistic idx weight True (fsStatistics fs')) (\<lambda>st.
       Ok (fs'\<lparr>fsMask := m, fsStatistics := st\<rparr>))))) fs"

text \<open>\<open>setNumElements(numElements, true)\<close>: the array is cut, or grown, to \<open>numElements\<close>.\<close>

definition setNumElements :: "nat \<Rightarrow> FeatureVector \<Rightarrow> FeatureVector" where
  "setNumElements numElements fv =
     fv\<lparr>elements := take numElements (elements fv)
                      @ replicate (numElements - length (elements fv))
                          \<lparr> featureValue = Finite 0, exampleIndex = 0 \<rparr>\<rparr>"

definition filterCurrentVector ::
  "FeatureVector \<Rightarrow> intp \<Rightarrow> intp \<Rightarrow> Comparator \<Rightarrow> bool \<Rightarrow> uint32 \<Rightarrow> WeightVector \<Rightarrow> FilterState
   \<Rightarrow> FilterState result" where
  "filterCurrentVector vec conditionStart conditionEnd conditionComparator isCov numConds ws fs =
     (let numTotalElements = length (elements vec);
          distance = nat (\<bar>conditionStart - conditionEnd\<bar> mod 2 ^ 32);
          numElements = (if isCov then distance
                         else if distance < numTotalElements then numTotalElements - distance
                         else 0);
          inPlace = (vectorPtr (fsEntry fs) \<noteq> None);
          filteredVector = filteredArray vec (fsEntry fs) numElements;
          iterator = elements vec;
          descending = conditionEnd < conditionStart;
          startR = (if descending then conditionEnd + 1 else conditionStart);
          endR = (if descending then conditionStart + 1 else conditionEnd) in
      bindR
        (if isCov then
           bindR (resetCoveredStatistics (fsStatistics fs)) (\<lambda>st.
           bindR (markRange iterator ws numConds False [startR..endR - 1]
                    (fs\<lparr>fsMask := setTarget numConds (fsMask fs), fsStatistics := st\<rparr>)) (\<lambda>fs1.
           bindR (retainElements inPlace iterator [startR..endR - 1] 0
                    (elements filteredVector)) (\<lambda>out.
           Ok (fs1, filteredVector\<lparr>elements := out\<rparr>))))
         else
           bindR (markRange iterator ws numConds True [startR..endR - 1] fs) (\<lambda>fs1.
           bindR (if conditionComparator = NEQ then
                    (if descending
                     then retainElements inPlace iterator [endR..int numTotalElements - 1]
                            (nat (startR mod 2 ^ 32)) (elements filteredVector)
                     else retainElements inPlace iterator [0..startR - 1] 0
                            (elements filteredVector))
                  else Ok (elements filteredVector)) (\<lambda>out1.
           bindR (if descending
                  then retainElements inPlace iterator [0..startR - 1] 0 out1
                  else retainElements inPlace iterator [endR..int numTotalElements - 1]
                         (nat (startR mod 2 ^ 32)) out1) (\<lambda>out2.
           bindR (markMissing (missingIndices vec) ws numConds fs1) (\<lambda>fs2.
           Ok (fs2, filteredVector\<lparr>elements := out2\<rparr>))))))
        (\<lambda>(fs', fv).
           Ok (fs'\<lparr>fsEntry := \<lparr> vectorPtr = Some (setNumElements numElements fv),
                                 entryNumConditions = numConds \<rparr>\<rparr>)))"

subsection \<open>\<open>filterAnyVector\<close>\<close>

text \<open>
  When the entry has a vector, it is the vector that is filtered: \<open>clearMissingIndices\<close> then
  empties the very set that the loop over the missing indices goes through.
\<close>

definition filterAnyVector ::
  "FeatureVector \<Rightarrow> FilteredCacheEntry \<Rightarrow> uint32 \<Rightarrow> CoverageMask \<Rightarrow> FilteredCacheEntry result" where
  "filterAnyVector vec entry numConds cmask =
     (let maxElements = length (elements vec);
          inPlace = (vectorPtr entry \<noteq> None);
          filteredVector = filteredArray vec entry maxElements;
          missing = (if inPlace then [] else missingIndices vec) in
      bindR (forEach missing (\<lambda>idx kept.
               bindR (isCovered cmask (unat idx)) (\<lambda>c.
               Ok (if c then kept @ [idx] else kept))) []) (\<lambda>keptMissing.
      bindR (forEach [0..<maxElements] (\<lambda>pos (i, out).
               bindR (readAt (if inPlace then out else elements vec) pos) (\<lambda>e.
               bindR (isCovered cmask (unat (exampleIndex e))) (\<lambda>c.
               if c then bindR (writeAt out i e) (\<lambda>out'. Ok (i + 1, out'))
               else Ok (i, out)))) (0, elements filteredVector)) (\<lambda>(i, out).
      Ok \<lparr> vectorPtr = Some (setNumElements i
                               (filteredVector\<lparr>elements := out,
                                               missingIndices := keptMissing\<rparr>)),
           entryNumConditions = numConds \<rparr>)))"

subsection \<open>The thresholds and their subset\<close>

text \<open>
  \<open>ExactThresholds\<close>: the cache of the feature vectors, a null pointer (\<open>Some None\<close>) until
  the vector is fetched, the statistics of the statistics provider, and the number of
  examples.
\<close>

record ExactThresholds =
  featureCache :: "uint32 \<rightharpoonup> FeatureVector option"
  statisticsPtr :: LabelWiseStatistics
  thresholdsNumExamples :: uint32

record ThresholdsSubset =
  subsetWeights :: WeightVector
  numCoveredExamples :: uint32
  coverageMask :: CoverageMask
  numModifications :: uint32
  cacheFiltered :: "uint32 \<rightharpoonup> FilteredCacheEntry"

text \<open>
  The collaborators that the core uses through interfaces: the feature matrix
  (\<open>fetchFeatureVector\<close> followed by \<open>sortByValues\<close>), the nominal feature mask, the feature
  and instance sub-sampling with the random number generator, and the stopping criteria.
  \<open>taskOrder\<close> belongs to the run-time system: it is the order in which the iterations of
  the loop under \<open>#pragma omp parallel for schedule(dynamic)\<close> take effect, which the
  program does not fix.
\<close>

datatype Action = CONTINUE | STORE_STOP | FORCE_STOP

record StoppingResult =
  stoppingAction :: Action
  stoppingNumRules :: uint32

record 'g Collaborators =
  fetchSortedFeatureVector :: "uint32 \<Rightarrow> FeatureVector"
  isNominal :: "uint32 \<Rightarrow> bool"
  featureSubSample :: "'g \<Rightarrow> uint32 list \<times> 'g"
  instanceSubSample :: "'g \<Rightarrow> WeightVector \<times> 'g"
  stoppingCriteria :: "(LabelWiseStatistics \<Rightarrow> uint32 \<Rightarrow> StoppingResult) list"
  taskOrder :: "uint32 list \<Rightarrow> uint32 list"

text \<open>
  Modelled from the spec: \<open>updateSampledStatisticsInternally\<close> of
  \<open>common/thresholds/thresholds_common.hpp\<close>, which installs the sampled weights into the
  statistics: \<open>addSampledStatistic\<close> is called for every \<open>i\<close> with \<open>w(i) \<noteq> 0\<close>, after
  \<open>resetSampledStatistics\<close>, which \<open>IStatistics\<close> requires to be invoked before a new rule is
  learned.
\<close>

definition updateSampledStatisticsInternally ::
  "WeightVector \<Rightarrow> LabelWiseStatistics \<Rightarrow> LabelWiseStatistics result" where
  "updateSampledStatisticsInternally ws st =
     bindR (resetSampledStatistics st) (\<lambda>st0.
     forEach [0..<getNumStatistics st0] (\<lambda>i st'.
       bindR (getWeight ws (word_of_nat i)) (\<lambda>weight.
       if fne weight (Finite 0) then addSampledStatistic (word_of_nat i) weight st'
       else Ok st')) st0)"

text \<open>\<open>ExactThresholds::createSubset\<close>.\<close>

definition createSubset ::
  "ExactThresholds \<Rightarrow> WeightVector \<Rightarrow> (ExactThresholds \<times> ThresholdsSubset) result" where
  "createSubset thr ws =
     bindR (updateSampledStatisticsInternally ws (statisticsPtr thr)) (\<lambda>st.
     Ok (thr\<lparr>statisticsPtr := st\<rparr>,
         \<lparr> subsetWeights = ws, numCoveredExamples = getNumNonZeroWeights ws,
           coverageMask = newCoverageMask (unat (thresholdsNumExamples thr)),
           numModifications = 0, cacheFiltered = Map.empty \<rparr>))"

text \<open>
  \<open>ExactRuleRefinement\<close>: the feature, whether it is nominal, the number of examples that
  the rule covers, and the refinement that \<open>findRefinement\<close> has found.
\<close>

record ExactRuleRefinement =
  refinedFeatureIndex :: uint32
  refinedNominal :: bool
  refinedNumExamples :: uint32
  foundRefinementPtr :: "Refinement option"

definition createExactRuleRefinement ::
  "'g Collaborators \<Rightarrow> uint32 \<Rightarrow> ExactThresholds \<times> ThresholdsSubset
   \<Rightarrow> (ExactThresholds \<times> ThresholdsSubset) \<times> ExactRuleRefinement" where
  "createExactRuleRefinement collab featureIdx ts =
     (let (thr, sub) = ts;
          entry = (case cacheFiltered sub featureIdx of
                     None \<Rightarrow> newFilteredCacheEntry | Some e \<Rightarrow> e);
          sub1 = sub\<lparr>cacheFiltered := (cacheFiltered sub)(featureIdx \<mapsto> entry)\<rparr>;
          thr1 = (if vectorPtr entry = None \<and> featureCache thr featureIdx = None
                  then thr\<lparr>featureCache := (featureCache thr)(featureIdx \<mapsto> None)\<rparr>
                  else thr) in
      ((thr1, sub1),
       \<lparr> refinedFeatureIndex = featureIdx, refinedNominal = isNominal collab featureIdx,
         refinedNumExamples = numCoveredExamples sub1, foundRefinementPtr = None \<rparr>))"

text \<open>\<open>Callback::get\<close>: the feature vector of the feature, filtered if it is out of date.\<close>

definition callbackGet ::
  "'g Collaborators \<Rightarrow> uint32 \<Rightarrow> ExactThresholds \<times> ThresholdsSubset
   \<Rightarrow> ((ExactThresholds \<times> ThresholdsSubset) \<times> FeatureVector) result" where
  "callbackGet collab featureIdx ts =
     (let (thr, sub) = ts in
      case cacheFiltered sub featureIdx of
        None \<Rightarrow> Fault
      | Some cacheEntry \<Rightarrow>
          bindR (case vectorPtr cacheEntry of
                   Some fv \<Rightarrow> Ok (thr, fv)
                 | None \<Rightarrow>
                     (case featureCache thr featureIdx of
                        None \<Rightarrow> Fault
                      | Some (Some fv) \<Rightarrow> Ok (thr, fv)
                      | Some None \<Rightarrow>
                          (let fv = fetchSortedFeatureVector collab featureIdx in
                           Ok (thr\<lparr>featureCache := (featureCache thr)(featureIdx \<mapsto> Some fv)\<rparr>,
                               fv)))) (\<lambda>(thr1, featureVector).
          let numConds = numModifications sub in
          if entryNumConditions cacheEntry < numConds then
            bindR (filterAnyVector featureVector cacheEntry numConds (coverageMask sub))
              (\<lambda>entry'.
            case vectorPtr entry' of
              None \<Rightarrow> Fault
            | Some fv' \<Rightarrow>
                Ok ((thr1, sub\<lparr>cacheFiltered := (cacheFiltered sub)(featureIdx \<mapsto> entry')\<rparr>),
                    fv'))
          else Ok ((thr1, sub), featureVector)))"

text \<open>\<open>ExactRuleRefinement::findRefinement\<close> with its callback, and \<open>pollRefinement\<close>.\<close>

definition ruleRefinementFind ::
  "'g Collaborators \<Rightarrow> AbstractEvaluatedPrediction option \<Rightarrow> uint32
   \<Rightarrow> ExactThresholds \<times> ThresholdsSubset \<Rightarrow> ExactRuleRefinement
   \<Rightarrow> ((ExactThresholds \<times> ThresholdsSubset) \<times> ExactRuleRefinement) result" where
  "ruleRefinementFind collab currentHead minCoverage ts rr =
     bindR (callbackGet collab (refinedFeatureIndex rr) ts) (\<lambda>(ts1, featureVector).
     bindR (findRefinement
              \<lparr> ctxStatistics = statisticsPtr (fst ts1), ctxWeights = subsetWeights (snd ts1),
                ctxVector = featureVector, ctxNumExamples = refinedNumExamples rr,
                ctxNominal = refinedNominal rr, ctxMinCoverage = minCoverage \<rparr>
              (refinedFeatureIndex rr) currentHead) (\<lambda>s.
     Ok (ts1, rr\<lparr>foundRefinementPtr := Some (refinementPtr s)\<rparr>)))"

definition pollRefinement :: "ExactRuleRefinement \<Rightarrow> Refinement option \<times> ExactRuleRefinement" where
  "pollRefinement rr = (foundRefinementPtr rr, rr\<lparr>foundRefinementPtr := None\<rparr>)"

text \<open>\<open>ThresholdsSubset::filterThresholds(Refinement&)\<close>; the refinement is returned with its
  adjusted \<open>end\<close>.\<close>

definition filterThresholds ::
  "Refinement \<Rightarrow> ExactThresholds \<times> ThresholdsSubset
   \<Rightarrow> ((ExactThresholds \<times> ThresholdsSubset) \<times> Refinement) result" where
  "filterThresholds refinement ts =
     (let (thr, sub0) = ts;
          sub = sub0\<lparr>numModifications := numModifications sub0 + 1,
                    numCoveredExamples := numCovered refinement\<rparr> in
      case cacheFiltered sub (featureIndex refinement) of
        None \<Rightarrow> Fault
      | Some cacheEntry \<Rightarrow>
          bindR (case vectorPtr cacheEntry of
                   Some fv \<Rightarrow> Ok fv
                 | None \<Rightarrow>
                     (case featureCache thr (featureIndex refinement) of
                        Some (Some fv) \<Rightarrow> Ok fv
                      | _ \<Rightarrow> Fault)) (\<lambda>featureVector.
          bindR (if hasZeroWeights (subsetWeights sub)
                    \<and> 1 < \<bar>previous refinement - endPos refinement\<bar>
                 then bindR (adjustSplit featureVector (endPos refinement) (previous refinement)
                               (threshold refinement)) (\<lambda>e. Ok (refinement\<lparr>endPos := e\<rparr>))
                 else Ok refinement) (\<lambda>refinement1.
          bindR (filterCurrentVector featureVector (start refinement1) (endPos refinement1)
                   (comparator refinement1) (covered refinement1) (numModifications sub)
                   (subsetWeights sub)
                   \<lparr> fsEntry = cacheEntry, fsMask = coverageMask sub,
                     fsStatistics = statisticsPtr thr \<rparr>) (\<lambda>fs.
          Ok ((thr\<lparr>statisticsPtr := fsStatistics fs\<rparr>,
               sub\<lparr>coverageMask := fsMask fs,
                   cacheFiltered := (cacheFiltered sub)(featureIndex refinement \<mapsto> fsEntry fs)\<rparr>),
              refinement1)))))"

text \<open>\<open>ThresholdsSubset::applyPrediction\<close>.\<close>

definition applyPrediction ::
  "ExactThresholds \<times> ThresholdsSubset \<Rightarrow> (ExactThresholds \<times> ThresholdsSubset) result" where
  "applyPrediction ts =
     (let (thr, sub) = ts in
      bindR (forEach [0..<getNumStatistics (statisticsPtr thr)] (\<lambda>i st.
               bindR (isCovered (coverageMask sub) i) (\<lambda>c.
               if c then increaseCoverageCount (word_of_nat i) st else Ok st))
               (statisticsPtr thr)) (\<lambda>st1.
      bindR (updatePredictions st1) (\<lambda>st2.
      Ok (thr\<lparr>statisticsPtr := st2\<rparr>, sub))))"

section \<open>Top-down rule induction\<close>

text \<open>
  Modelled from the spec: \<open>Refinement::isBetterThan\<close> of
  \<open>common/rule_refinement/refinement.cpp\<close>, which compares the overall quality scores; a
  refinement without a head, as the initially empty one, has the score \<open>+\<infinity>\<close>.
\<close>

definition refinementQuality :: "Refinement \<Rightarrow> float64" where
  "refinementQuality rf = (case headPtr rf of None \<Rightarrow> PosInf | Some h \<Rightarrow> headQualityScore h)"

definition isBetterThan :: "Refinement \<Rightarrow> Refinement \<Rightarrow> bool" where
  "isBetterThan rf another = flt (refinementQuality rf) (refinementQuality another)"

text \<open>
  Modelled from the spec: the model builder, to which \<open>addRule(conditions, head)\<close> adds a
  rule and whose \<open>build(numUsedRules)\<close> gives the rule list, all rules if \<open>numUsedRules\<close> is
  zero.  The conditions of a rule are the refinements in the order they have been learned.
\<close>

type_synonym ConditionList = "Refinement list"
type_synonym ModelBuilder = "(ConditionList \<times> AbstractEvaluatedPrediction) list"

definition addRule ::
  "ConditionList \<Rightarrow> AbstractEvaluatedPrediction \<Rightarrow> ModelBuilder \<Rightarrow> ModelBuilder" where
  "addRule conds h mb = mb @ [(conds, h)]"

definition build :: "uint32 \<Rightarrow> ModelBuilder \<Rightarrow> ModelBuilder" where
  "build numUsedRules mb = (if numUsedRules = 0 then mb else take (unat numUsedRules) mb)"

text \<open>
  The conversion \<open>(uint32) x\<close> of a floating-point value, which truncates; it is undefined
  when the truncated value is not a \<open>uint32\<close>.
\<close>

fun toUint32 :: "ieee \<Rightarrow> uint32 result" where
  "toUint32 (Finite a) =
     (if - 1 < a \<and> a < 2 ^ 32 then Ok (word_of_nat (nat \<lfloor>a\<rfloor>)) else Fault)"
| "toUint32 _ = Fault"

text \<open>The variables of \<open>induceRule\<close> that the loop changes.\<close>

record 'g InductionState =
  thresholdsState :: "ExactThresholds \<times> ThresholdsSubset"
  ruleRefinements :: "uint32 \<rightharpoonup> ExactRuleRefinement"
  bestRefinementPtr :: Refinement
  bestHeadPtr :: "AbstractEvaluatedPrediction option"
  conditions :: ConditionList
  numConditions :: uint32
  foundRefinement :: bool
  rngState :: 'g

text \<open>The first loop over the sampled features: a rule refinement is created for each.\<close>

definition createRuleRefinements ::
  "'g Collaborators \<Rightarrow> uint32 list \<Rightarrow> 'g InductionState \<Rightarrow> 'g InductionState result" where
  "createRuleRefinements collab sampledFeatureIndices s =
     forEach sampledFeatureIndices (\<lambda>featureIdx s'.
       let (ts, rr) = createExactRuleRefinement collab featureIdx (thresholdsState s') in
       Ok (s'\<lparr>thresholdsState := ts,
              ruleRefinements := (ruleRefinements s')(featureIdx \<mapsto> rr)\<rparr>)) s"

text \<open>
  The second loop, which OpenMP runs in parallel: \<open>findRefinement\<close> for every sampled
  feature.  Each task writes the rule refinement and the cache entries of its own feature;
  the model runs the tasks one after the other, in the order of the list it is given.
\<close>

definition findRefinements ::
  "'g Collaborators \<Rightarrow> uint32 \<Rightarrow> uint32 list \<Rightarrow> 'g InductionState \<Rightarrow> 'g InductionState result" where
  "findRefinements collab minCoverage sampledFeatureIndices s =
     forEach sampledFeatureIndices (\<lambda>featureIdx s'.
       case ruleRefinements s' featureIdx of
         None \<Rightarrow> Fault
       | Some rr \<Rightarrow>
           bindR (ruleRefinementFind collab (bestHeadPtr s) minCoverage (thresholdsState s') rr)
             (\<lambda>(ts, rr').
           Ok (s'\<lparr>thresholdsState := ts,
                  ruleRefinements := (ruleRefinements s')(featureIdx \<mapsto> rr')\<rparr>))) s"

text \<open>The third loop: the best refinement among those of the sampled features.\<close>

definition pickBestRefinement ::
  "uint32 list \<Rightarrow> 'g InductionState \<Rightarrow> 'g InductionState result" where
  "pickBestRefinement sampledFeatureIndices s =
     forEach sampledFeatureIndices (\<lambda>featureIdx s'.
       case ruleRefinements s' featureIdx of
         None \<Rightarrow> Fault
       | Some rr \<Rightarrow>
           (let (polled, rr') = pollRefinement rr;
                s1 = s'\<lparr>ruleRefinements := (ruleRefinements s')(featureIdx \<mapsto> rr')\<rparr> in
            case polled of
              None \<Rightarrow> Fault
            | Some refinement \<Rightarrow>
                Ok (if isBetterThan refinement (bestRefinementPtr s1)
                    then s1\<lparr>bestRefinementPtr := refinement, foundRefinement := True\<rparr>
                    else s1))) s"

text \<open>One iteration of the \<open>while\<close> loop.\<close>

definition refineRule ::
  "'g Collaborators \<Rightarrow> uint32 \<Rightarrow> 'g InductionState \<Rightarrow> 'g InductionState result" where
  "refineRule collab minCoverage s0 =
     (let s = s0\<lparr>foundRefinement := False\<rparr>;
          (sampledFeatureIndices, g) = featureSubSample collab (rngState s) in
      bindR (createRuleRefinements collab sampledFeatureIndices (s\<lparr>rngState := g\<rparr>)) (\<lambda>s1.
      bindR (findRefinements collab minCoverage (taskOrder collab sampledFeatureIndices) s1)
        (\<lambda>s2.
      bindR (pickBestRefinement sampledFeatureIndices s2) (\<lambda>s3.
      if foundRefinement s3 then
        bindR (filterThresholds (bestRefinementPtr s3) (thresholdsState s3)) (\<lambda>(ts, refinement).
        Ok (s3\<lparr>bestHeadPtr := headPtr refinement, bestRefinementPtr := refinement,
               thresholdsState := ts, conditions := conditions s3 @ [refinement],
               numConditions := numConditions s3 + 1\<rparr>))
      else Ok s3))))"

text \<open>
  The \<open>while\<close> loop, on fuel: \<open>while (foundRefinement && (maxConditions_ == -1 ||
  numConditions < maxConditions_))\<close>.
\<close>

fun growRule ::
  "nat \<Rightarrow> 'g Collaborators \<Rightarrow> intp \<Rightarrow> uint32 \<Rightarrow> 'g InductionState
   \<Rightarrow> 'g InductionState result option" where
  "growRule fuel collab maxConditions minCoverage s =
     (if foundRefinement s \<and> (maxConditions = - 1 \<or> uint (numConditions s) < maxConditions)
      then (case fuel of
              0 \<Rightarrow> None
            | Suc fuel' \<Rightarrow>
                (case refineRule collab minCoverage s of
                   Ok s' \<Rightarrow> growRule fuel' collab maxConditions minCoverage s'
                 | Fault \<Rightarrow> Some Fault))
      else Some (Ok s))"

declare growRule.simps [simp del]

text \<open>The fields of \<open>TopDownRuleInduction\<close>.\<close>

record TopDownRuleInduction =
  minSupport :: float32
  maxConditions :: intp

text \<open>What \<open>induceRule\<close> returns and the objects that it has changed.\<close>

record 'g InductionResult =
  success :: bool
  resultQuality :: float64
  resultThresholds :: ExactThresholds
  resultModelBuilder :: ModelBuilder
  resultRng :: 'g

definition initialInductionState ::
  "ExactThresholds \<times> ThresholdsSubset \<Rightarrow> 'g \<Rightarrow> 'g InductionState" where
  "initialInductionState ts g =
     \<lparr> thresholdsState = ts, ruleRefinements = Map.empty, bestRefinementPtr = emptyRefinement,
       bestHeadPtr = None, conditions = [], numConditions = 0, foundRefinement = True,
       rngState = g \<rparr>"

text \<open>The end of \<open>induceRule\<close>, when the loop has been left.\<close>

definition commitRule ::
  "'g InductionState \<Rightarrow> ModelBuilder \<Rightarrow> float64 \<Rightarrow> 'g InductionResult result" where
  "commitRule s modelBuilder currentQuality =
     (case bestHeadPtr s of
        None \<Rightarrow>
          Ok \<lparr> success = False, resultQuality = currentQuality,
               resultThresholds = fst (thresholdsState s), resultModelBuilder = modelBuilder,
               resultRng = rngState s \<rparr>
      | Some h \<Rightarrow>
          (let qualityScore = headQualityScore h in
           if flt qualityScore currentQuality then
             bindR (applyPrediction (thresholdsState s)) (\<lambda>ts'.
             Ok \<lparr> success = True, resultQuality = qualityScore,
                  resultThresholds = fst ts',
                  resultModelBuilder = addRule (conditions s) h modelBuilder,
                  resultRng = rngState s \<rparr>)
           else
             Ok \<lparr> success = False, resultQuality = currentQuality,
                  resultThresholds = fst (thresholdsState s),
                  resultModelBuilder = modelBuilder, resultRng = rngState s \<rparr>))"

definition induceRule ::
  "nat \<Rightarrow> TopDownRuleInduction \<Rightarrow> 'g Collaborators \<Rightarrow> ExactThresholds \<Rightarrow> WeightVector \<Rightarrow> 'g
   \<Rightarrow> ModelBuilder \<Rightarrow> float64 \<Rightarrow> 'g InductionResult result option" where
  "induceRule fuel ri collab thr ws g modelBuilder currentQuality =
     (let numExamplesTotal = thresholdsNumExamples thr in
      case toUint32 (fmul (minSupport ri) (ofUint32 numExamplesTotal)) of
        Fault \<Rightarrow> Some Fault
      | Ok minCoverage \<Rightarrow>
          (case createSubset thr ws of
             Fault \<Rightarrow> Some Fault
           | Ok ts \<Rightarrow>
               (case growRule fuel collab (maxConditions ri) minCoverage
                       (initialInductionState ts g) of
                  None \<Rightarrow> None
                | Some Fault \<Rightarrow> Some Fault
                | Some (Ok s) \<Rightarrow> Some (commitRule s modelBuilder currentQuality))))"

section \<open>Sequential rule model induction\<close>

text \<open>\<open>testStoppingCriteria\<close>: the first \<open>FORCE_STOP\<close> is returned at once, the last
  \<open>STORE_STOP\<close> otherwise.\<close>

fun testStoppingLoop ::
  "(LabelWiseStatistics \<Rightarrow> uint32 \<Rightarrow> StoppingResult) list \<Rightarrow> LabelWiseStatistics \<Rightarrow> uint32
   \<Rightarrow> StoppingResult \<Rightarrow> StoppingResult" where
  "testStoppingLoop [] st numRules res = res"
| "testStoppingLoop (criterion # rest) st numRules res =
     (let stoppingCriterionResult = criterion st numRules in
      case stoppingAction stoppingCriterionResult of
        FORCE_STOP \<Rightarrow> stoppingCriterionResult
      | STORE_STOP \<Rightarrow> testStoppingLoop rest st numRules stoppingCriterionResult
      | CONTINUE \<Rightarrow> testStoppingLoop rest st numRules res)"

definition testStoppingCriteria ::
  "(LabelWiseStatistics \<Rightarrow> uint32 \<Rightarrow> StoppingResult) list \<Rightarrow> LabelWiseStatistics \<Rightarrow> uint32
   \<Rightarrow> StoppingResult" where
  "testStoppingCriteria criteria st numRules =
     testStoppingLoop criteria st numRules \<lparr> stoppingAction = CONTINUE, stoppingNumRules = 0 \<rparr>"

text \<open>
  The variables of \<open>induceRules\<close>.  \<open>visitedPredictions\<close> is what the prediction visitor has
  been given; \<open>finished\<close> says that the loop has been left.
\<close>

record 'g DriverState =
  driverThresholds :: ExactThresholds
  driverModelBuilder :: ModelBuilder
  driverRng :: 'g
  numRules :: uint32
  numUsedRules :: uint32
  currentQuality :: float64
  visitedPredictions :: "uint32 list list"
  finished :: bool

text \<open>One iteration of the loop of \<open>induceRules\<close>, the test of the stopping criteria included.\<close>

text \<open>What the loop does with the result of \<open>induceRule\<close>.\<close>

definition afterInduceRule :: "'g DriverState \<Rightarrow> 'g InductionResult \<Rightarrow> 'g DriverState" where
  "afterInduceRule d1 res =
     (let d2 = d1\<lparr>driverThresholds := resultThresholds res,
                 driverModelBuilder := resultModelBuilder res,
                 driverRng := resultRng res,
                 currentQuality := resultQuality res\<rparr> in
      if success res then
        d2\<lparr>numRules := numRules d2 + 1,
           visitedPredictions :=
             visitedPredictions d2 @ [getPredictions (statisticsPtr (resultThresholds res))]\<rparr>
      else d2\<lparr>finished := True\<rparr>)"

definition induceRulesStep ::
  "nat \<Rightarrow> TopDownRuleInduction \<Rightarrow> 'g Collaborators \<Rightarrow> 'g DriverState
   \<Rightarrow> 'g DriverState result option" where
  "induceRulesStep ruleFuel ri collab d =
     (let stoppingCriterionResult =
            testStoppingCriteria (stoppingCriteria collab)
              (statisticsPtr (driverThresholds d)) (numRules d) in
      if stoppingAction stoppingCriterionResult = FORCE_STOP
      then Some (Ok (d\<lparr>finished := True\<rparr>))
      else
        (let d1 = (if stoppingAction stoppingCriterionResult = STORE_STOP \<and> numUsedRules d = 0
                   then d\<lparr>numUsedRules := stoppingNumRules stoppingCriterionResult\<rparr> else d);
             (ws, g) = instanceSubSample collab (driverRng d1) in
         case induceRule ruleFuel ri collab (driverThresholds d1) ws g (driverModelBuilder d1)
                (currentQuality d1) of
           None \<Rightarrow> None
         | Some Fault \<Rightarrow> Some Fault
         | Some (Ok res) \<Rightarrow> Some (Ok (afterInduceRule d1 res))))"

text \<open>The loop of \<open>induceRules\<close>, on fuel.\<close>

fun induceRulesLoop ::
  "nat \<Rightarrow> nat \<Rightarrow> TopDownRuleInduction \<Rightarrow> 'g Collaborators \<Rightarrow> 'g DriverState
   \<Rightarrow> 'g DriverState result option" where
  "induceRulesLoop fuel ruleFuel ri collab d =
     (if finished d then Some (Ok d)
      else (case fuel of
              0 \<Rightarrow> None
            | Suc fuel' \<Rightarrow>
                (case induceRulesStep ruleFuel ri collab d of
                   None \<Rightarrow> None
                 | Some Fault \<Rightarrow> Some Fault
                 | Some (Ok d') \<Rightarrow> induceRulesLoop fuel' ruleFuel ri collab d')))"

declare induceRulesLoop.simps [simp del]

text \<open>
  The state in which the loop starts: \<open>currentQuality = 0\<close>, new statistics and thresholds.
  \<open>hasDefaultRule\<close> says whether a head refinement factory for the default rule is given;
  \<open>induceDefaultRule\<close> switches the rule evaluation and adds no rule.
\<close>

definition initialDriverState ::
  "bool \<Rightarrow> CContiguousLabelMatrix \<Rightarrow> (nat \<Rightarrow> uint32) \<Rightarrow> ModelBuilder \<Rightarrow> 'g \<Rightarrow> 'g DriverState" where
  "initialDriverState hasDefaultRule lm uninitialised modelBuilder g =
     \<lparr> driverThresholds =
         \<lparr> featureCache = Map.empty,
           statisticsPtr = newLabelWiseStatistics lm uninitialised,
           thresholdsNumExamples = word_of_nat (getNumRows lm) \<rparr>,
       driverModelBuilder = modelBuilder, driverRng = g,
       numRules = (if hasDefaultRule then 1 else 0), numUsedRules = 0,
       currentQuality = Finite 0, visitedPredictions = [], finished = False \<rparr>"

text \<open>\<open>induceRules\<close>: the rule list that the model builder builds, and the final state.\<close>

definition induceRules ::
  "nat \<Rightarrow> nat \<Rightarrow> TopDownRuleInduction \<Rightarrow> 'g Collaborators \<Rightarrow> bool \<Rightarrow> CContiguousLabelMatrix
   \<Rightarrow> (nat \<Rightarrow> uint32) \<Rightarrow> ModelBuilder \<Rightarrow> 'g
   \<Rightarrow> (ModelBuilder \<times> 'g DriverState) result option" where
  "induceRules fuel ruleFuel ri collab hasDefaultRule lm uninitialised modelBuilder g =
     map_option (\<lambda>res. bindR res (\<lambda>d. Ok (build (numUsedRules d) (driverModelBuilder d), d)))
       (induceRulesLoop fuel ruleFuel ri collab
          (initialDriverState hasDefaultRule lm uninitialised modelBuilder g))"

section \<open>Auxiliary definitions for the proofs\<close>

text \<open>One step of the walk of \<open>adjustSplit\<close>, at the position \<open>q\<close>.\<close>

definition adjustStep :: "FeatureVector \<Rightarrow> bool \<Rightarrow> float32 \<Rightarrow> intp \<Rightarrow> intp \<Rightarrow> intp flow result" where
  "adjustStep fv ascending thr q adjustedPosition =
     (let rPos = nat (q mod 2 ^ 32) in
      bindR (readAt (elements fv) rPos) (\<lambda>e.
      let adjust = (if ascending then fle (featureValue e) thr else fgt (featureValue e) thr) in
      if adjust then Ok (Continue (int rPos)) else Ok (Break adjustedPosition)))"

text \<open>The prediction that \<open>updatePredictions\<close> computes for the time slot \<open>i\<close>.\<close>

definition slotPrediction :: "LabelWiseStatistics \<Rightarrow> nat \<Rightarrow> uint32 result" where
  "slotPrediction st i =
     bindR (readAt (indices (labelMatrix st)) i) (\<lambda>firstIdx.
     bindR (readAt (indices (labelMatrix st)) (i + 1)) (\<lambda>lastIdx.
     countCovered (coverageCountVector st) firstIdx lastIdx))"

section \<open>Examples\<close>

text \<open>
  Scenario S1 of the specification: six examples, two in each of three time slots, the
  ground truth \<open>[2, 0, 2]\<close>, and one numerical feature with the values \<open>[1, 1, 0, 0, 1, 1]\<close>,
  the zeros of which are sparse.
\<close>

definition labelMatrixS1 :: CContiguousLabelMatrix where
  "labelMatrixS1 =
     \<lparr> timeSlots = [0, 0, 1, 1, 2, 2], indices = [0, 2, 4, 6], groundTruthValues = [2, 0, 2] \<rparr>"

definition featureVectorS1 :: FeatureVector where
  "featureVectorS1 =
     \<lparr> elements = [\<lparr> featureValue = Finite 1, exampleIndex = 0 \<rparr>,
                   \<lparr> featureValue = Finite 1, exampleIndex = 1 \<rparr>,
                   \<lparr> featureValue = Finite 1, exampleIndex = 4 \<rparr>,
                   \<lparr> featureValue = Finite 1, exampleIndex = 5 \<rparr>],
       missingIndices = [] \<rparr>"

text \<open>The thresholds and the subset when the rule \<open>f > 0.5\<close> has been grown in S1.\<close>

definition thresholdsGrownS1 :: ExactThresholds where
  "thresholdsGrownS1 =
     \<lparr> featureCache = [0 \<mapsto> Some featureVectorS1],
       statisticsPtr = \<lparr> coverageCountVector = [0, 0, 0, 0, 0, 0], predictionVector = [0, 0, 0],
                         totalPredictionVector = [2, 0, 2], labelMatrix = labelMatrixS1 \<rparr>,
       thresholdsNumExamples = 6 \<rparr>"

definition subsetGrownS1 :: ThresholdsSubset where
  "subsetGrownS1 =
     \<lparr> subsetWeights = [1, 1, 1, 1, 1, 1], numCoveredExamples = 4,
       coverageMask = \<lparr> maskArray = [1, 1, 0, 0, 1, 1], maskTarget = 1 \<rparr>,
       numModifications = 1,
       cacheFiltered = [0 \<mapsto> \<lparr> vectorPtr = Some featureVectorS1, entryNumConditions = 1 \<rparr>] \<rparr>"

text \<open>
  Scenario S6 of the specification: a feature vector in which the example at position 2 has
  weight zero.
\<close>

definition featureVectorS6 :: FeatureVector where
  "featureVectorS6 =
     \<lparr> elements = [\<lparr> featureValue = Finite (- 2), exampleIndex = 0 \<rparr>,
                   \<lparr> featureValue = Finite (- 1), exampleIndex = 1 \<rparr>,
                   \<lparr> featureValue = Finite (1 / 2), exampleIndex = 2 \<rparr>,
                   \<lparr> featureValue = Finite 1, exampleIndex = 3 \<rparr>,
                   \<lparr> featureValue = Finite 2, exampleIndex = 4 \<rparr>],
       missingIndices = [] \<rparr>"

text \<open>
  What holds of the search after every step when \<open>mc\<close> is the minimum coverage: each
  candidate that has been evaluated covers at least \<open>mc\<close> examples, and so does the
  refinement once a head has been found.
\<close>

definition candidateInv :: "uint32 \<Rightarrow> SweepState \<Rightarrow> bool" where
  "candidateInv mc s \<longleftrightarrow>
     (\<forall>nc \<in> set (evaluated s). mc \<le> nc)
     \<and> (ownedHead s \<noteq> None \<longrightarrow> mc \<le> numCovered (refinementPtr s))"





definition ruleInductionS1 :: TopDownRuleInduction where
  "ruleInductionS1 = \<lparr> minSupport = Finite (1 / 10), maxConditions = 1 \<rparr>"

text \<open>
  The committed statistics: what a rule that is not committed must leave as it was.
\<close>

definition committedStatistics ::
  "LabelWiseStatistics \<Rightarrow> uint32 list \<times> uint32 list \<times> CContiguousLabelMatrix" where
  "committedStatistics st = (coverageCountVector st, predictionVector st, labelMatrix st)"


text \<open>
  The quality scores of the rules of a model builder, in the order the rules were added, and
  what the loop of \<open>induceRules\<close> keeps true of the rules added to the model builder \<open>mb\<close> it
  was given: their scores are strictly decreasing and strictly negative, and
  \<open>currentQuality\<close> is the score of the last of them, \<open>0\<close> when there is none.
\<close>

definition committedScores :: "ModelBuilder \<Rightarrow> float64 list" where
  "committedScores mb = map (\<lambda>r. headQualityScore (snd r)) mb"

definition strictlyDecreasing :: "float64 list \<Rightarrow> bool" where
  "strictlyDecreasing qs = sorted_wrt (\<lambda>a b. flt b a) qs"

definition driverInv :: "ModelBuilder \<Rightarrow> 'g DriverState \<Rightarrow> bool" where
  "driverInv mb d \<longleftrightarrow>
     (\<exists>added. driverModelBuilder d = mb @ added
        \<and> strictlyDecreasing (committedScores added)
        \<and> (\<forall>q \<in> set (committedScores added). flt q (Finite 0))
        \<and> currentQuality d = last (Finite 0 # committedScores added))"

text \<open>
  A run that commits two rules: the ground truth is \<open>[0, 2, 2]\<close>, the one feature is \<open>1\<close> for
  the two examples of the first time slot and \<open>2\<close> for those of the last one, a rule has one
  condition, and a stopping criterion ends the run when the model has two rules.
\<close>

definition labelMatrixTwoRules :: CContiguousLabelMatrix where
  "labelMatrixTwoRules =
     \<lparr> timeSlots = [0, 0, 1, 1, 2, 2], indices = [0, 2, 4, 6], groundTruthValues = [0, 2, 2] \<rparr>"

definition featureVectorTwoRules :: FeatureVector where
  "featureVectorTwoRules =
     \<lparr> elements = [\<lparr> featureValue = Finite 1, exampleIndex = 0 \<rparr>,
                   \<lparr> featureValue = Finite 1, exampleIndex = 1 \<rparr>,
                   \<lparr> featureValue = Finite 2, exampleIndex = 4 \<rparr>,
                   \<lparr> featureValue = Finite 2, exampleIndex = 5 \<rparr>],
       missingIndices = [] \<rparr>"

definition collaboratorsTwoRules :: "unit Collaborators" where
  "collaboratorsTwoRules =
     \<lparr> fetchSortedFeatureVector = (\<lambda>featureIdx. featureVectorTwoRules),
       isNominal = (\<lambda>featureIdx. False),
       featureSubSample = (\<lambda>g. ([0], g)),
       instanceSubSample = (\<lambda>g. ([1, 1, 1, 1, 1, 1], g)),
       stoppingCriteria =
         [\<lambda>st n. \<lparr> stoppingAction = (if n = 2 then FORCE_STOP else CONTINUE),
                    stoppingNumRules = 0 \<rparr>],
       taskOrder = (\<lambda>tasks. tasks) \<rparr>"






text \<open>
  In S1, a feature that is \<open>1\<close> for the first example of every time slot: the rule \<open>f > 0.5\<close>
  covers one example in each slot, and so do the examples it leaves uncovered.
\<close>

definition featureVectorOnePerSlot :: FeatureVector where
  "featureVectorOnePerSlot =
     \<lparr> elements = [\<lparr> featureValue = Finite 1, exampleIndex = 0 \<rparr>,
                   \<lparr> featureValue = Finite 1, exampleIndex = 2 \<rparr>,
                   \<lparr> featureValue = Finite 1, exampleIndex = 4 \<rparr>],
       missingIndices = [] \<rparr>"




text \<open>
  For the tasks of the parallel loop.  Every rule refinement is stored under the index of its
  own feature (\<open>keysOwn\<close>); \<open>findRefinementTask\<close> is the body of the loop for one feature; and
  \<open>taskEntries\<close> writes the three entries that belong to a feature: its vector in the cache
  of the thresholds, its entry in the cache of the subset and its rule refinement.
\<close>

definition keysOwn :: "'g InductionState \<Rightarrow> bool" where
  "keysOwn s \<longleftrightarrow> (\<forall>f rr. ruleRefinements s f = Some rr \<longrightarrow> refinedFeatureIndex rr = f)"

definition findRefinementTask ::
  "'g Collaborators \<Rightarrow> AbstractEvaluatedPrediction option \<Rightarrow> uint32 \<Rightarrow> uint32
   \<Rightarrow> 'g InductionState \<Rightarrow> 'g InductionState result" where
  "findRefinementTask collab currentHead minCoverage featureIdx s' =
     (case ruleRefinements s' featureIdx of
        None \<Rightarrow> Fault
      | Some rr \<Rightarrow>
          bindR (ruleRefinementFind collab currentHead minCoverage (thresholdsState s') rr)
            (\<lambda>(ts, rr').
          Ok (s'\<lparr>thresholdsState := ts,
                 ruleRefinements := (ruleRefinements s')(featureIdx \<mapsto> rr')\<rparr>)))"

definition taskEntries ::
  "uint32 \<Rightarrow> FeatureVector option option \<Rightarrow> FilteredCacheEntry option
   \<Rightarrow> ExactRuleRefinement option \<Rightarrow> 'g InductionState \<Rightarrow> 'g InductionState" where
  "taskEntries g a b c s =
     s\<lparr>thresholdsState :=
         ((fst (thresholdsState s))
            \<lparr>featureCache := (featureCache (fst (thresholdsState s)))(g := a)\<rparr>,
          (snd (thresholdsState s))
            \<lparr>cacheFiltered := (cacheFiltered (snd (thresholdsState s)))(g := b)\<rparr>),
       ruleRefinements := (ruleRefinements s)(g := c)\<rparr>"

text \<open>A task order only reorders the tasks it is given.\<close>

definition reordersTasks :: "(uint32 list \<Rightarrow> uint32 list) \<Rightarrow> bool" where
  "reordersTasks order \<longleftrightarrow> (\<forall>tasks. mset (order tasks) = mset tasks)"

text \<open>
  S1 with a second feature, the one that is \<open>1\<close> for one example of every time slot; a rule
  has one condition and a stopping criterion ends the run when the model has one rule.
\<close>

definition collaboratorsTwoFeatures :: "unit Collaborators" where
  "collaboratorsTwoFeatures =
     \<lparr> fetchSortedFeatureVector =
         (\<lambda>featureIdx. if featureIdx = 0 then featureVectorS1 else featureVectorOnePerSlot),
       isNominal = (\<lambda>featureIdx. False),
       featureSubSample = (\<lambda>g. ([0, 1], g)),
       instanceSubSample = (\<lambda>g. ([1, 1, 1, 1, 1, 1], g)),
       stoppingCriteria =
         [\<lambda>st n. \<lparr> stoppingAction = (if n = 1 then FORCE_STOP else CONTINUE),
                    stoppingNumRules = 0 \<rparr>],
       taskOrder = (\<lambda>tasks. tasks) \<rparr>"

section \<open>Verification\<close>

subsection \<open>The quality score is the negated absolute Pearson correlation\<close>






subsection \<open>Results and loops\<close>

lemma bindR_Ok_iff: "bindR m f = Ok y \<longleftrightarrow> (\<exists>x. m = Ok x \<and> f x = Ok y)"
  by (cases m) simp_all

lemma bindR_assoc: "bindR (bindR m f) g = bindR m (\<lambda>x. bindR (f x) g)"
  by (cases m) simp_all

lemma forEach_invariant:
  assumes "forEach xs body s = Ok s'" and "P s"
    and "\<And>x u u'. x \<in> set xs \<Longrightarrow> P u \<Longrightarrow> body x u = Ok u' \<Longrightarrow> P u'"
  shows "P s'"
  using assms
proof (induction xs arbitrary: s)
  case Nil
  then show ?case by simp
next
  case (Cons x xs)
  from Cons.prems(1) obtain u where u: "body x s = Ok u" and rest: "forEach xs body u = Ok s'"
    by (auto simp: bindR_Ok_iff)
  have "P u" using Cons.prems(3) [of x s u] Cons.prems(2) u by simp
  then show ?case using Cons.IH [OF rest] Cons.prems(3) by (metis list.set_intros(2))
qed

lemma forLoop_map: "forLoop (map f xs) body s = forLoop xs (\<lambda>i. body (f i)) s"
  by (induction xs arbitrary: s) (auto split: result.splits flow.splits)

subsection \<open>The committed predictions count the covered examples\<close>

lemma countLoop:
  "forEach xs (\<lambda>j prediction. bindR (readAt cc j) (\<lambda>c. Ok (if 0 < c then prediction + 1 else prediction))) p0
     = Ok (v :: uint32)
   \<Longrightarrow> v = p0 + word_of_nat (length (filter (\<lambda>j. 0 < cc ! j) xs))"
proof (induction xs arbitrary: p0)
  case Nil
  then show ?case by simp
next
  case (Cons x xs)
  from Cons.prems obtain c where c: "readAt cc x = Ok c"
    and rest: "forEach xs (\<lambda>j prediction. bindR (readAt cc j) (\<lambda>c. Ok (if 0 < c then prediction + 1 else prediction)))
                 (if 0 < c then p0 + 1 else p0) = Ok v"
    by (auto simp: bindR_Ok_iff)
  from c have cx: "c = cc ! x" by (auto simp: readAt_def split: if_splits)
  from Cons.IH [OF rest] show ?case by (simp add: cx)
qed

lemma countCovered_card:
  assumes "countCovered cc firstIdx lastIdx = Ok v"
  shows "unat v = card {i. unat firstIdx \<le> i \<and> i < unat lastIdx \<and> 0 < cc ! i}"
proof -
  let ?xs = "filter (\<lambda>j. 0 < cc ! j) [unat firstIdx..<unat lastIdx]"
  from assms have v: "v = word_of_nat (length ?xs)"
    unfolding countCovered_def by (drule_tac countLoop) simp
  have "length ?xs \<le> unat lastIdx" using length_filter_le [of "\<lambda>j. 0 < cc ! j" "[unat firstIdx..<unat lastIdx]"] by simp
  also have "unat lastIdx < 2 ^ 32" using unsigned_less [of lastIdx, where 'a = nat] by simp
  finally have "unat (word_of_nat (length ?xs) :: uint32) = length ?xs"
    by (simp add: unsigned_of_nat take_bit_nat_eq_self)
  moreover have "length ?xs = card (set ?xs)" by (rule distinct_card [symmetric]) simp
  moreover have "set ?xs = {i. unat firstIdx \<le> i \<and> i < unat lastIdx \<and> 0 < cc ! i}" by auto
  ultimately show ?thesis using v by (simp only:)
qed

lemma writeLoop:
  "forEach xs (\<lambda>i out. bindR (g i) (\<lambda>v. writeAt out i v)) out0 = Ok out \<Longrightarrow> distinct xs \<Longrightarrow>
   length out = length out0 \<and> (\<forall>t \<in> set xs. g t = Ok (out ! t)) \<and> (\<forall>t. t \<notin> set xs \<longrightarrow> out ! t = out0 ! t)"
proof (induction xs arbitrary: out0)
  case Nil
  then show ?case by simp
next
  case (Cons x xs)
  from Cons.prems(1) obtain v where v: "g x = Ok v" and lt: "x < length out0"
    and rest: "forEach xs (\<lambda>i out. bindR (g i) (\<lambda>v. writeAt out i v)) (out0[x := v]) = Ok out"
    by (auto simp: bindR_Ok_iff writeAt_def split: if_splits)
  from Cons.prems(2) have d: "distinct xs" and nx: "x \<notin> set xs" by simp_all
  from Cons.IH [OF rest d] have len: "length out = length out0"
    and got: "\<forall>t \<in> set xs. g t = Ok (out ! t)"
    and kept: "\<forall>t. t \<notin> set xs \<longrightarrow> out ! t = out0[x := v] ! t" by simp_all
  from kept nx lt have "out ! x = v" by simp
  with v got kept len show ?case by auto
qed

lemma updatePredictions_result:
  assumes "updatePredictions st = Ok st'"
  shows "coverageCountVector st' = coverageCountVector st \<and> labelMatrix st' = labelMatrix st
         \<and> totalPredictionVector st' = totalPredictionVector st
         \<and> length (predictionVector st') = length (predictionVector st)
         \<and> (\<forall>t < getNumTimeSlots (labelMatrix st). slotPrediction st t = Ok (predictionVector st' ! t))"
proof -
  have body: "(\<lambda>i predictionIterator.
               bindR (readAt (indices (labelMatrix st)) i) (\<lambda>firstIdx.
               bindR (readAt (indices (labelMatrix st)) (i + 1)) (\<lambda>lastIdx.
               bindR (countCovered (coverageCountVector st) firstIdx lastIdx) (\<lambda>prediction.
               writeAt predictionIterator i prediction))))
       = (\<lambda>i out. bindR (slotPrediction st i) (\<lambda>v. writeAt out i v))"
    by (intro ext) (simp add: slotPrediction_def bindR_assoc)
  from assms obtain pv where
    loop: "forEach [0..<getNumTimeSlots (labelMatrix st)]
             (\<lambda>i out. bindR (slotPrediction st i) (\<lambda>v. writeAt out i v)) (predictionVector st) = Ok pv"
    and st': "st' = st\<lparr>predictionVector := pv\<rparr>"
    unfolding updatePredictions_def Let_def body by (auto simp: bindR_Ok_iff)
  from writeLoop [OF loop] st' show ?thesis by simp
qed

lemma increaseCoverageCount_frame:
  "increaseCoverageCount i st = Ok st' \<Longrightarrow>
   labelMatrix st' = labelMatrix st \<and> predictionVector st' = predictionVector st
   \<and> totalPredictionVector st' = totalPredictionVector st"
  by (auto simp: increaseCoverageCount_def bindR_Ok_iff)

text \<open>
  Claim C4.  After \<open>applyPrediction\<close> has returned, for every time slot \<open>t\<close> the prediction
  is the number of examples \<open>i\<close> of the slot, \<open>indices[t] \<le> i < indices[t + 1]\<close>, whose coverage
  count is positive.
\<close>

theorem applyPrediction_counts:
  assumes "applyPrediction (thr, sub) = Ok (thr', sub')"
    and "t < getNumTimeSlots (labelMatrix (statisticsPtr thr))"
  shows "unat (predictionVector (statisticsPtr thr') ! t) =
           card {i. unat (indices (labelMatrix (statisticsPtr thr)) ! t) \<le> i
                  \<and> i < unat (indices (labelMatrix (statisticsPtr thr)) ! (t + 1))
                  \<and> 0 < coverageCountVector (statisticsPtr thr') ! i}"
proof -
  from assms(1) obtain st1 st2 where
    inc: "forEach [0..<getNumStatistics (statisticsPtr thr)] (\<lambda>i st.
               bindR (isCovered (coverageMask sub) i) (\<lambda>c.
               if c then increaseCoverageCount (word_of_nat i) st else Ok st))
               (statisticsPtr thr) = Ok st1"
    and upd: "updatePredictions st1 = Ok st2" and thr': "statisticsPtr thr' = st2"
    by (auto simp: applyPrediction_def bindR_Ok_iff)
  have lm1: "labelMatrix st1 = labelMatrix (statisticsPtr thr)"
    by (rule forEach_invariant [OF inc, where P = "\<lambda>u. labelMatrix u = labelMatrix (statisticsPtr thr)"])
       (auto simp: bindR_Ok_iff dest: increaseCoverageCount_frame split: if_splits)
  from updatePredictions_result [OF upd] assms(2) lm1
  have cc: "coverageCountVector st2 = coverageCountVector st1"
    and slot: "slotPrediction st1 t = Ok (predictionVector st2 ! t)" by simp_all
  from slot obtain firstIdx lastIdx where
    f: "readAt (indices (labelMatrix st1)) t = Ok firstIdx"
    and l: "readAt (indices (labelMatrix st1)) (t + 1) = Ok lastIdx"
    and c: "countCovered (coverageCountVector st1) firstIdx lastIdx = Ok (predictionVector st2 ! t)"
    by (auto simp: slotPrediction_def bindR_Ok_iff)
  from f l have "firstIdx = indices (labelMatrix st1) ! t" "lastIdx = indices (labelMatrix st1) ! (t + 1)"
    by (auto simp: readAt_def split: if_splits)
  with countCovered_card [OF c] cc lm1 thr' show ?thesis by simp
qed

text \<open>In S1 the rule \<open>f > 0.5\<close> covers the two examples of the first time slot.\<close>

theorem applyPrediction_counts_witness:
  "(\<exists>thr'. applyPrediction (thresholdsGrownS1, subsetGrownS1) = Ok (thr', subsetGrownS1)
      \<and> coverageCountVector (statisticsPtr thr') = [1, 1, 0, 0, 1, 1]
      \<and> predictionVector (statisticsPtr thr') = [2, 0, 2]
      \<and> unat (predictionVector (statisticsPtr thr') ! 0) =
          card {i. unat (indices (labelMatrix (statisticsPtr thresholdsGrownS1)) ! 0) \<le> i
                 \<and> i < unat (indices (labelMatrix (statisticsPtr thresholdsGrownS1)) ! (0 + 1))
                 \<and> 0 < coverageCountVector (statisticsPtr thr') ! i})
   \<and> 0 < getNumTimeSlots (labelMatrix (statisticsPtr thresholdsGrownS1))"
proof -
  let ?thr' = "thresholdsGrownS1\<lparr>statisticsPtr :=
      \<lparr> coverageCountVector = [1, 1, 0, 0, 1, 1], predictionVector = [2, 0, 2],
        totalPredictionVector = [2, 0, 2], labelMatrix = labelMatrixS1 \<rparr>\<rparr>"
  have run: "applyPrediction (thresholdsGrownS1, subsetGrownS1) = Ok (?thr', subsetGrownS1)"
    by (simp add: applyPrediction_def thresholdsGrownS1_def subsetGrownS1_def labelMatrixS1_def
          getNumStatistics_def getNumRows_def getNumTimeSlots_def isCovered_def readAt_def
          writeAt_def increaseCoverageCount_def updatePredictions_def countCovered_def
          upt_conv_Cons Let_def)
  have slots: "0 < getNumTimeSlots (labelMatrix (statisticsPtr thresholdsGrownS1))"
    by (simp add: getNumTimeSlots_def thresholdsGrownS1_def labelMatrixS1_def)
  from applyPrediction_counts [OF run slots] run slots show ?thesis
    by (simp add: thresholdsGrownS1_def)
qed


subsection \<open>Idempotence of the split adjustment\<close>

lemma map_add_upt: "map (\<lambda>i. a + int i) [0..<n] = [a..a + int n - 1]"
proof (induction n)
  case 0
  then show ?case by simp
next
  case (Suc n)
  have "[a..a + int (Suc n) - 1] = [a..a + int n - 1] @ [a + int n]"
    using upto_rec2 [of a "a + int n"] by simp
  with Suc show ?case by simp
qed

lemma map_sub_upt: "map (\<lambda>i. b - int i) [0..<n] = rev [b - int n + 1..b]"
proof (induction n)
  case 0
  then show ?case by simp
next
  case (Suc n)
  have "[b - int (Suc n) + 1..b] = (b - int n) # [b - int n + 1..b]"
    using upto_rec1 [of "b - int n" b] by simp
  with Suc show ?case by simp
qed

lemma adjustSplit_ascending:
  assumes "e < p"
  shows "adjustSplit fv e p thr =
     forLoop (map (\<lambda>i. e + 1 + int i) [0..<nat (\<bar>e + 1 - p\<bar> mod 2 ^ 32)])
       (adjustStep fv True thr) e"
proof -
  have body: "(\<lambda>i adjustedPosition.
        bindR (readAt (elements fv) (nat ((e + 1 + int i * 1) mod 2 ^ 32))) (\<lambda>el.
        if fle (featureValue el) thr
        then Ok (Continue (int (nat ((e + 1 + int i * 1) mod 2 ^ 32))))
        else Ok (Break adjustedPosition)))
      = (\<lambda>i. adjustStep fv True thr (e + 1 + int i))"
    by (intro ext) (simp add: adjustStep_def Let_def cong del: if_weak_cong)
  show ?thesis
    using assms unfolding adjustSplit_def forLoop_map
    by (simp only: Let_def if_True body)
qed

lemma adjustSplit_descending:
  assumes "\<not> e < p"
  shows "adjustSplit fv e p thr =
     forLoop (map (\<lambda>i. e - 1 - int i) [0..<nat (\<bar>e - 1 - p\<bar> mod 2 ^ 32)])
       (adjustStep fv False thr) e"
proof -
  have body: "(\<lambda>i adjustedPosition.
        bindR (readAt (elements fv) (nat ((e - 1 + int i * - 1) mod 2 ^ 32))) (\<lambda>el.
        if fgt (featureValue el) thr
        then Ok (Continue (int (nat ((e - 1 + int i * - 1) mod 2 ^ 32))))
        else Ok (Break adjustedPosition)))
      = (\<lambda>i. adjustStep fv False thr (e - 1 - int i))"
    by (intro ext) (simp add: adjustStep_def Let_def cong del: if_weak_cong)
  have start: "e + - 1 = e - 1" by simp
  show ?thesis
    using assms unfolding adjustSplit_def forLoop_map
    by (simp only: Let_def if_False body start)
qed

lemma walk_ascending:
  "forLoop [a..b] (adjustStep fv asc thr) (a - 1) = Ok r \<Longrightarrow> 0 \<le> a \<Longrightarrow> b < 2 ^ 32 \<Longrightarrow>
   a - 1 \<le> r \<and> r \<le> max (a - 1) b \<and> forLoop [r + 1..b] (adjustStep fv asc thr) r = Ok r"
proof (induction "nat (b - a + 1)" arbitrary: a)
  case 0
  then have "[a..b] = []" by simp
  with 0 show ?case by simp
next
  case (Suc k)
  then have le: "a \<le> b" by linarith
  then have unfold: "[a..b] = a # [a + 1..b]" by (simp add: upto_rec1)
  have pos: "a mod 4294967296 = a"
    using Suc.prems le by simp
  show ?case
  proof (cases "adjustStep fv asc thr a (a - 1)")
    case (Ok fl)
    show ?thesis
    proof (cases fl)
      case (Continue x)
      with Ok Suc.prems le have x: "x = a"
        by (auto simp: adjustStep_def Let_def pos readAt_def split: if_splits)
      from Suc.prems(1) Ok Continue x have run: "forLoop [a + 1..b] (adjustStep fv asc thr) (a + 1 - 1) = Ok r"
        by (simp add: unfold)
      have "k = nat (b - (a + 1) + 1)" using Suc.hyps(2) by linarith
      from Suc.hyps(1) [OF this run] Suc.prems le show ?thesis by auto
    next
      case (Break x)
      with Ok have x: "x = a - 1"
        by (auto simp: adjustStep_def Let_def pos readAt_def split: if_splits)
      from Suc.prems(1) Ok Break x have r: "r = a - 1" by (simp add: unfold)
      with Suc.prems(1) le show ?thesis by simp
    qed
  next
    case Fault
    with Suc.prems(1) show ?thesis by (simp add: unfold)
  qed
qed

lemma walk_descending:
  "forLoop (rev [a..b]) (adjustStep fv asc thr) (b + 1) = Ok r \<Longrightarrow> 0 \<le> a \<Longrightarrow> b < 2 ^ 32 \<Longrightarrow>
   min a (b + 1) \<le> r \<and> r \<le> b + 1 \<and> forLoop (rev [a..r - 1]) (adjustStep fv asc thr) r = Ok r"
proof (induction "nat (b - a + 1)" arbitrary: b)
  case 0
  then have "[a..b] = []" by simp
  with 0 show ?case by simp
next
  case (Suc k)
  then have le: "a \<le> b" by linarith
  then have unfold: "rev [a..b] = b # rev [a..b - 1]" by (simp add: upto_rec2)
  have pos: "b mod 4294967296 = b"
    using Suc.prems le by simp
  show ?case
  proof (cases "adjustStep fv asc thr b (b + 1)")
    case (Ok fl)
    show ?thesis
    proof (cases fl)
      case (Continue x)
      with Ok Suc.prems le have x: "x = b"
        by (auto simp: adjustStep_def Let_def pos readAt_def split: if_splits)
      from Suc.prems(1) Ok Continue x have run: "forLoop (rev [a..b - 1]) (adjustStep fv asc thr) (b - 1 + 1) = Ok r"
        by (simp add: unfold)
      have "k = nat (b - 1 - a + 1)" using Suc.hyps(2) by linarith
      from Suc.hyps(1) [OF this run] Suc.prems le show ?thesis by auto
    next
      case (Break x)
      with Ok have x: "x = b + 1"
        by (auto simp: adjustStep_def Let_def pos readAt_def split: if_splits)
      from Suc.prems(1) Ok Break x have r: "r = b + 1" by (simp add: unfold)
      with Suc.prems(1) le show ?thesis by simp
    qed
  next
    case Fault
    with Suc.prems(1) show ?thesis by (simp add: unfold)
  qed
qed

text \<open>
  Claim C6.  \<open>adjustSplit\<close> is idempotent: applied to the position that a first call has
  returned, with the same previous position and threshold, it returns that position.  The
  positions are positions of the feature vector (\<open>end\<close> from \<open>-1\<close>, \<open>previous\<close> from \<open>0\<close>, both
  up to its length), which has fewer than \<open>2\<^sup>3\<^sup>2\<close> elements.
\<close>

theorem adjustSplit_idempotent:
  assumes run: "adjustSplit fv conditionEnd conditionPrevious thr = Ok adjusted"
    and e: "- 1 \<le> conditionEnd" "conditionEnd \<le> int (length (elements fv))"
    and p: "0 \<le> conditionPrevious" "conditionPrevious \<le> int (length (elements fv))"
    and len: "length (elements fv) < 2 ^ 32"
  shows "adjustSplit fv adjusted conditionPrevious thr = Ok adjusted"
proof -
  let ?L = "int (length (elements fv))"
  have L: "?L < 2 ^ 32" using len by simp
  have ascSteps: "nat (\<bar>x + 1 - conditionPrevious\<bar> mod 4294967296) = nat (conditionPrevious - 1 - x)"
    if "- 1 \<le> x" "x < conditionPrevious" for x
  proof -
    have "\<bar>x + 1 - conditionPrevious\<bar> = conditionPrevious - 1 - x" using that by linarith
    moreover have "(conditionPrevious - 1 - x) mod 2 ^ 32 = conditionPrevious - 1 - x"
      using that p L by simp
    ultimately show ?thesis by simp
  qed
  have ascList: "map (\<lambda>i. x + 1 + int i) [0..<nat (conditionPrevious - 1 - x)]
      = [x + 1..conditionPrevious - 1]" if "x < conditionPrevious" for x
    using that map_add_upt [of "x + 1" "nat (conditionPrevious - 1 - x)"] by simp
  have descSteps: "nat (\<bar>x - 1 - conditionPrevious\<bar> mod 4294967296) = nat (x - 1 - conditionPrevious)"
    if "conditionPrevious < x" "x \<le> ?L" for x
  proof -
    have "\<bar>x - 1 - conditionPrevious\<bar> = x - 1 - conditionPrevious" using that by linarith
    moreover have "(x - 1 - conditionPrevious) mod 2 ^ 32 = x - 1 - conditionPrevious"
      using that p L by simp
    ultimately show ?thesis by simp
  qed
  have descList: "map (\<lambda>i. x - 1 - int i) [0..<nat (x - 1 - conditionPrevious)]
      = rev [conditionPrevious + 1..x - 1]" if "conditionPrevious < x" for x
    using that map_sub_upt [of "x - 1" "nat (x - 1 - conditionPrevious)"] by simp
  consider (asc) "conditionEnd < conditionPrevious" | (desc) "conditionPrevious < conditionEnd"
    | (eq) "conditionEnd = conditionPrevious" by linarith
  then show ?thesis
  proof cases
    case asc
    have "forLoop [conditionEnd + 1..conditionPrevious - 1] (adjustStep fv True thr)
            (conditionEnd + 1 - 1) = Ok adjusted"
      using run by (simp add: adjustSplit_ascending [OF asc] ascSteps [OF e(1) asc] ascList [OF asc])
    from walk_ascending [OF this] e p L asc
    have r: "conditionEnd \<le> adjusted" "adjusted < conditionPrevious"
      and again: "forLoop [adjusted + 1..conditionPrevious - 1] (adjustStep fv True thr) adjusted
                    = Ok adjusted"
      by auto
    from r e have r1: "- 1 \<le> adjusted" by linarith
    show ?thesis
      using again by (simp add: adjustSplit_ascending [OF r(2)] ascSteps [OF r1 r(2)] ascList [OF r(2)])
  next
    case desc
    then have nasc: "\<not> conditionEnd < conditionPrevious" by simp
    have "forLoop (rev [conditionPrevious + 1..conditionEnd - 1]) (adjustStep fv False thr)
            (conditionEnd - 1 + 1) = Ok adjusted"
      using run by (simp add: adjustSplit_descending [OF nasc] descSteps [OF desc e(2)] descList [OF desc])
    from walk_descending [OF this] e p L desc
    have r: "conditionPrevious < adjusted" "adjusted \<le> conditionEnd"
      and again: "forLoop (rev [conditionPrevious + 1..adjusted - 1]) (adjustStep fv False thr)
                    adjusted = Ok adjusted"
      by auto
    from r have nasc': "\<not> adjusted < conditionPrevious" by simp
    from r e have r2: "adjusted \<le> ?L" by linarith
    show ?thesis
      using again
      by (simp add: adjustSplit_descending [OF nasc'] descSteps [OF r(1) r2] descList [OF r(1)])
  next
    case eq
    have one: "adjustSplit fv conditionPrevious conditionPrevious thr
        = (case adjustStep fv False thr (conditionPrevious - 1) conditionPrevious of
             Ok (Continue s') \<Rightarrow> Ok s' | Ok (Break s') \<Rightarrow> Ok s' | Fault \<Rightarrow> Fault)"
      by (simp add: adjustSplit_descending [of conditionPrevious conditionPrevious]
            split: result.splits flow.splits)
    from run eq have run': "adjustSplit fv conditionPrevious conditionPrevious thr = Ok adjusted"
      by simp
    show ?thesis
    proof (cases "conditionPrevious = 0")
      case True
      then have "adjustStep fv False thr (conditionPrevious - 1) conditionPrevious = Fault"
        using len by (simp add: adjustStep_def readAt_def)
      with run' one show ?thesis by simp
    next
      case False
      with p have ge: "1 \<le> conditionPrevious" by simp
      then have pos: "(conditionPrevious - 1) mod 4294967296 = conditionPrevious - 1"
        using p L by simp
      from run' one ge have "adjusted = conditionPrevious - 1 \<or> adjusted = conditionPrevious"
        by (auto simp: adjustStep_def Let_def pos readAt_def split: if_splits)
      then show ?thesis
      proof
        assume a: "adjusted = conditionPrevious - 1"
        have lt: "conditionPrevious - 1 < conditionPrevious" by simp
        have "adjustSplit fv (conditionPrevious - 1) conditionPrevious thr
                = Ok (conditionPrevious - 1)"
          by (simp add: adjustSplit_ascending [OF lt])
        with a show ?thesis by simp
      next
        assume "adjusted = conditionPrevious"
        with run' show ?thesis by simp
      qed
    qed
  qed
qed

text \<open>
  In S6 with the threshold \<open>0.75\<close> the walk from position 1 towards position 3 moves the
  split to position 2, where a second call leaves it.
\<close>

theorem adjustSplit_idempotent_witness:
  "adjustSplit featureVectorS6 1 3 (Finite (3 / 4)) = Ok 2
   \<and> - 1 \<le> (1 :: int) \<and> (1 :: int) \<le> int (length (elements featureVectorS6))
   \<and> 0 \<le> (3 :: int) \<and> (3 :: int) \<le> int (length (elements featureVectorS6))
   \<and> length (elements featureVectorS6) < 2 ^ 32
   \<and> adjustSplit featureVectorS6 2 3 (Finite (3 / 4)) = Ok 2"
proof -
  have first: "adjustSplit featureVectorS6 1 3 (Finite (3 / 4)) = Ok 2"
    by (simp add: adjustSplit_def featureVectorS6_def Let_def readAt_def fle_def)
  have len: "length (elements featureVectorS6) = 5" by (simp add: featureVectorS6_def)
  from adjustSplit_idempotent [OF first] first len show ?thesis by simp
qed

subsection \<open>Minimum coverage of the candidates\<close>

lemma bindR_OkE:
  assumes "bindR m f = Ok y"
  obtains x where "m = Ok x" and "f x = Ok y"
  using assms by (cases m) simp_all




lemma evaluateCandidate_frame:
  assumes "evaluateCandidate ctx enabled uncov acc nc assign s = Ok s'"
  shows "numExamples s' = numExamples s \<and> firstR s' = firstR s \<and> lastNegativeR s' = lastNegativeR s
     \<and> previousThreshold s' = previousThreshold s \<and> previousR s' = previousR s
     \<and> accumulatedNumExamples s' = accumulatedNumExamples s
     \<and> accumulatedNumExamplesNegative s' = accumulatedNumExamplesNegative s
     \<and> previousRNegative s' = previousRNegative s"
  using assms
  by (auto simp: evaluateCandidate_def Let_def elim!: bindR_OkE split: if_splits option.splits)





lemma candidateInv_update [simp]:
  "candidateInv mc (s\<lparr>curR := a\<rparr>) = candidateInv mc s"
  "candidateInv mc (s\<lparr>lastNegativeR := a\<rparr>) = candidateInv mc s"
  "candidateInv mc (s\<lparr>numExamples := n\<rparr>) = candidateInv mc s"
  "candidateInv mc (s\<lparr>previousThreshold := t\<rparr>) = candidateInv mc s"
  "candidateInv mc (s\<lparr>previousR := a\<rparr>) = candidateInv mc s"
  "candidateInv mc (s\<lparr>firstR := a\<rparr>) = candidateInv mc s"
  "candidateInv mc (s\<lparr>accumulatedNumExamples := n\<rparr>) = candidateInv mc s"
  "candidateInv mc (s\<lparr>previousThresholdNegative := t\<rparr>) = candidateInv mc s"
  "candidateInv mc (s\<lparr>previousRNegative := a\<rparr>) = candidateInv mc s"
  "candidateInv mc (s\<lparr>accumulatedNumExamplesNegative := n\<rparr>) = candidateInv mc s"
  by (simp_all add: candidateInv_def)

lemma assignCondition_numCovered [simp]: "numCovered (assignCondition a e p nc cov cmp thr rf) = nc"
  by (simp add: assignCondition_def)

















lemmas evalSweep = findRefinement_def addMissing_def createStatisticsSubset_def negativePhase_def
  nonNegativePhase_def sparsePhase_def separatingPhase_def initialSweepState_def emptyRefinement_def
  pollHead_def negativeFirstBody_def negativeBody_def negativeSplit_def negativeLastGroup_def
  nonNegativeFirstBody_def nonNegativeBody_def nonNegativeSplit_def nonNegativeLastGroup_def
  evaluateCandidate_def assignCondition_def sweepAdd_def sweepReset_def findHead_def
  subsetCalculateLabelWisePrediction_def calculateLabelWisePrediction_def pearsonLoop.simps
  pearsonStep_def ruleEvaluationScores_def getNumCols_def addToSubset_def addToMissing_def
  resetSubset_def copyArray_def increment_def decrement_def readAt_def readPos_def writeAt_def
  getWeight_def fge_def fgt_def fne_def fle_def fsub_def fpow2_def ofUint32_def infOfSign_def
  arithmeticMean_def USE_LEQ_def USE_NEQ_def Let_def upto.simps




subsection \<open>Committing a rule\<close>

lemma committed_total [simp]:
  "committedStatistics (st\<lparr>totalPredictionVector := tp\<rparr>) = committedStatistics st"
  by (simp add: committedStatistics_def)


















text \<open>The run of S1: one condition is added and the rule is committed; with a current quality
  that the rule does not improve, nothing is committed.\<close>

lemmas evalThresholds = createSubset_def updateSampledStatisticsInternally_def
  resetSampledStatistics_def resetCoveredStatistics_def addSampledStatistic_def
  updateCoveredStatistic_def getNumStatistics_def getNumRows_def getNumTimeSlots_def
  newLabelWiseStatistics_def newCoverageMask_def getNumNonZeroWeights_def hasZeroWeights_def
  createRuleRefinements_def createExactRuleRefinement_def newFilteredCacheEntry_def
  findRefinements_def ruleRefinementFind_def callbackGet_def filterAnyVector_def
  pickBestRefinement_def pollRefinement_def isBetterThan_def refinementQuality_def
  refineRule_def filterThresholds_def adjustSplit_def filterCurrentVector_def filteredArray_def
  retainElements_def markRange_def markMissing_def markExample_def setTarget_def
  setNumElements_def isCovered_def applyPrediction_def increaseCoverageCount_def
  updatePredictions_def countCovered_def induceRule_def commitRule_def addRule_def
  initialInductionState_def growRule.simps upt_conv_Cons





subsection \<open>The quality scores of the committed rules\<close>

lemma flt_trans: "flt a b \<Longrightarrow> flt b c \<Longrightarrow> flt a c"
  by (cases a; cases b; cases c) simp_all

lemma strictlyDecreasing_last:
  assumes "strictlyDecreasing qs" and "x \<in> set qs"
  shows "x = last qs \<or> flt (last qs) x"
proof -
  from assms(2) have ne: "qs \<noteq> []" by auto
  then have split: "qs = butlast qs @ [last qs]" by simp
  from assms(1) have "sorted_wrt (\<lambda>a b. flt b a) (butlast qs @ [last qs])"
    using split by (simp add: strictlyDecreasing_def)
  then have "\<forall>y \<in> set (butlast qs). flt (last qs) y"
    by (simp add: sorted_wrt_append)
  moreover from assms(2) split have "x \<in> set (butlast qs) \<or> x = last qs"
    by (metis Un_iff empty_iff empty_set set_ConsD set_append)
  ultimately show ?thesis by blast
qed

lemma strictlyDecreasing_snoc:
  assumes dec: "strictlyDecreasing qs"
    and neg: "\<forall>q \<in> set qs. flt q (Finite 0)"
    and lt: "flt q' (last (Finite 0 # qs))"
  shows "strictlyDecreasing (qs @ [q']) \<and> (\<forall>q \<in> set (qs @ [q']). flt q (Finite 0))
         \<and> last (Finite 0 # qs @ [q']) = q'"
proof (cases "qs = []")
  case True
  with lt show ?thesis by (simp add: strictlyDecreasing_def)
next
  case False
  with lt have l: "flt q' (last qs)" by simp
  have all: "flt q' x" if "x \<in> set qs" for x
    using strictlyDecreasing_last [OF dec that] l flt_trans by blast
  from False have "last qs \<in> set qs" by simp
  with neg l have "flt q' (Finite 0)" using flt_trans by blast
  with dec neg all show ?thesis
    by (auto simp: strictlyDecreasing_def sorted_wrt_append)
qed

lemma commitRule_result:
  assumes "commitRule s modelBuilder quality = Ok res"
  shows "(success res \<and> flt (resultQuality res) quality
            \<and> (\<exists>r. resultModelBuilder res = modelBuilder @ [r]
                  \<and> headQualityScore (snd r) = resultQuality res))
         \<or> (\<not> success res \<and> resultQuality res = quality \<and> resultModelBuilder res = modelBuilder)"
  using assms
  by (auto simp: commitRule_def Let_def addRule_def elim!: bindR_OkE
        split: option.splits if_splits)

lemma induceRule_result:
  assumes "induceRule fuel ri collab thr ws g modelBuilder quality = Some (Ok res)"
  shows "(success res \<and> flt (resultQuality res) quality
            \<and> (\<exists>r. resultModelBuilder res = modelBuilder @ [r]
                  \<and> headQualityScore (snd r) = resultQuality res))
         \<or> (\<not> success res \<and> resultQuality res = quality \<and> resultModelBuilder res = modelBuilder)"
proof -
  from assms obtain s where "commitRule s modelBuilder quality = Ok res"
    by (auto simp: induceRule_def Let_def split: result.splits option.splits)
  then show ?thesis by (rule commitRule_result)
qed

lemma driverInv_initial:
  "driverInv mb (initialDriverState hasDefaultRule lm uninitialised mb g)"
  by (simp add: driverInv_def initialDriverState_def committedScores_def strictlyDecreasing_def)

lemma afterInduceRule_inv:
  assumes inv: "driverInv mb d1"
    and run: "induceRule fuel ri collab thr ws g (driverModelBuilder d1) (currentQuality d1)
                = Some (Ok res)"
  shows "driverInv mb (afterInduceRule d1 res)"
proof -
  from inv obtain added where a: "driverModelBuilder d1 = mb @ added"
    "strictlyDecreasing (committedScores added)"
    "\<forall>q \<in> set (committedScores added). flt q (Finite 0)"
    "currentQuality d1 = last (Finite 0 # committedScores added)"
    unfolding driverInv_def by blast
  from induceRule_result [OF run] show ?thesis
  proof (elim disjE conjE exE)
    fix r
    assume s: "success res" and lt: "flt (resultQuality res) (currentQuality d1)"
      and mb: "resultModelBuilder res = driverModelBuilder d1 @ [r]"
      and q: "headQualityScore (snd r) = resultQuality res"
    from strictlyDecreasing_snoc [OF a(2) a(3), of "resultQuality res"] lt a(4)
    have "strictlyDecreasing (committedScores (added @ [r]))
          \<and> (\<forall>q \<in> set (committedScores (added @ [r])). flt q (Finite 0))
          \<and> last (Finite 0 # committedScores (added @ [r])) = resultQuality res"
      by (simp add: committedScores_def q)
    moreover have "driverModelBuilder (afterInduceRule d1 res) = mb @ (added @ [r])"
      using s mb a(1) by (simp add: afterInduceRule_def Let_def)
    moreover have "currentQuality (afterInduceRule d1 res) = resultQuality res"
      by (simp add: afterInduceRule_def Let_def)
    ultimately show ?thesis unfolding driverInv_def by metis
  next
    assume "\<not> success res" "resultQuality res = currentQuality d1"
      "resultModelBuilder res = driverModelBuilder d1"
    with a show ?thesis
      unfolding driverInv_def by (auto simp: afterInduceRule_def Let_def)
  qed
qed

lemma induceRulesStep_inv:
  assumes "driverInv mb d" and "induceRulesStep ruleFuel ri collab d = Some (Ok d')"
  shows "driverInv mb d'"
proof -
  define d1 where "d1 = (if stoppingAction (testStoppingCriteria (stoppingCriteria collab)
        (statisticsPtr (driverThresholds d)) (numRules d)) = STORE_STOP \<and> numUsedRules d = 0
      then d\<lparr>numUsedRules := stoppingNumRules (testStoppingCriteria (stoppingCriteria collab)
        (statisticsPtr (driverThresholds d)) (numRules d))\<rparr> else d)"
  have inv1: "driverInv mb d1"
    using assms(1) by (simp add: d1_def driverInv_def)
  have fin: "driverInv mb (d\<lparr>finished := True\<rparr>)"
    using assms(1) by (simp add: driverInv_def)
  from assms(2) have "d' = d\<lparr>finished := True\<rparr>
    \<or> (\<exists>ws g res. induceRule ruleFuel ri collab (driverThresholds d1) ws g (driverModelBuilder d1)
                (currentQuality d1) = Some (Ok res) \<and> d' = afterInduceRule d1 res)"
    unfolding induceRulesStep_def Let_def d1_def [symmetric]
    by (auto split: if_splits prod.splits option.splits result.splits)
  then show ?thesis
  proof (elim disjE exE conjE)
    assume "d' = d\<lparr>finished := True\<rparr>"
    with fin show ?thesis by simp
  next
    fix ws g res
    assume run: "induceRule ruleFuel ri collab (driverThresholds d1) ws g (driverModelBuilder d1)
                (currentQuality d1) = Some (Ok res)" and d': "d' = afterInduceRule d1 res"
    from afterInduceRule_inv [OF inv1 run] d' show ?thesis by simp
  qed
qed

lemma induceRulesLoop_inv:
  "driverInv mb d \<Longrightarrow> induceRulesLoop fuel ruleFuel ri collab d = Some (Ok d')
     \<Longrightarrow> driverInv mb d'"
proof (induction fuel arbitrary: d)
  case 0
  then show ?case
    by (simp add: induceRulesLoop.simps split: if_splits)
next
  case (Suc fuel)
  show ?case
  proof (cases "finished d")
    case True
    with Suc.prems show ?thesis by (simp add: induceRulesLoop.simps)
  next
    case False
    with Suc.prems(2) obtain d1 where st: "induceRulesStep ruleFuel ri collab d = Some (Ok d1)"
      and rest: "induceRulesLoop fuel ruleFuel ri collab d1 = Some (Ok d')"
      by (auto simp: induceRulesLoop.simps [of "Suc fuel"] split: option.splits result.splits)
    from Suc.IH [OF induceRulesStep_inv [OF Suc.prems(1) st] rest] show ?thesis .
  qed
qed

text \<open>
  Claim C10.  The loop of \<open>induceRules\<close> starts with \<open>currentQuality = 0\<close> and a rule is
  committed only when its quality score is strictly lower than \<open>currentQuality\<close>, which then
  becomes that score.  So the invariant \<open>driverInv\<close> holds of the initial state and every
  iteration of the loop keeps it, and when \<open>induceRules\<close> returns, the rules that the run has
  added to the model builder have, in the order they were committed, strictly decreasing
  quality scores, every one of them strictly negative.
\<close>

theorem induceRules_scores_decrease:
  "driverInv modelBuilder (initialDriverState hasDefaultRule lm uninitialised modelBuilder g)
   \<and> (\<forall>d d'. driverInv modelBuilder d \<and> induceRulesStep ruleFuel ri collab d = Some (Ok d')
         \<longrightarrow> driverInv modelBuilder d')
   \<and> (\<forall>model d. induceRules fuel ruleFuel ri collab hasDefaultRule lm uninitialised modelBuilder g
                  = Some (Ok (model, d)) \<longrightarrow>
         (\<exists>added. driverModelBuilder d = modelBuilder @ added
            \<and> strictlyDecreasing (committedScores added)
            \<and> (\<forall>q \<in> set (committedScores added). flt q (Finite 0))))"
proof (intro conjI allI impI)
  show "driverInv modelBuilder (initialDriverState hasDefaultRule lm uninitialised modelBuilder g)"
    by (rule driverInv_initial)
next
  fix d d' :: "'a DriverState"
  assume "driverInv modelBuilder d \<and> induceRulesStep ruleFuel ri collab d = Some (Ok d')"
  then show "driverInv modelBuilder d'"
    using induceRulesStep_inv by blast
next
  fix model and d :: "'a DriverState"
  assume "induceRules fuel ruleFuel ri collab hasDefaultRule lm uninitialised modelBuilder g
            = Some (Ok (model, d))"
  then have "induceRulesLoop fuel ruleFuel ri collab
               (initialDriverState hasDefaultRule lm uninitialised modelBuilder g) = Some (Ok d)"
    by (auto simp: induceRules_def elim!: bindR_OkE)
  from induceRulesLoop_inv [OF driverInv_initial this]
  show "\<exists>added. driverModelBuilder d = modelBuilder @ added
            \<and> strictlyDecreasing (committedScores added)
            \<and> (\<forall>q \<in> set (committedScores added). flt q (Finite 0))"
    unfolding driverInv_def by blast
qed

text \<open>The run with two rules: the scores are \<open>- 1 / 2\<close> and \<open>- 1\<close>.\<close>

lemmas evalDriver = induceRules_def induceRulesLoop.simps induceRulesStep_def afterInduceRule_def
  initialDriverState_def testStoppingCriteria_def testStoppingLoop.simps build_def
  getPredictions_def committedScores_def

lemmas evalTwoRules = collaboratorsTwoRules_def featureVectorTwoRules_def
  labelMatrixTwoRules_def ruleInductionS1_def

lemma induceRules_two_rules:
  "\<exists>model d. induceRules 3 1 ruleInductionS1 collaboratorsTwoRules False labelMatrixTwoRules
                 (\<lambda>k. 7) [] () = Some (Ok (model, d))
            \<and> committedScores (driverModelBuilder d) = [Finite (- (1 / 2)), Finite (- 1)]"
  apply (simp add: evalDriver evalThresholds evalTwoRules evalSweep)
  apply (simp add: numeral_eq_Suc)
  done

theorem induceRules_scores_decrease_witness:
  "\<exists>model d. induceRules 3 1 ruleInductionS1 collaboratorsTwoRules False labelMatrixTwoRules
                 (\<lambda>k. 7) [] () = Some (Ok (model, d))
            \<and> committedScores (driverModelBuilder d) = [Finite (- (1 / 2)), Finite (- 1)]
            \<and> strictlyDecreasing (committedScores (driverModelBuilder d))
            \<and> (\<forall>q \<in> set (committedScores (driverModelBuilder d)). flt q (Finite 0))"
proof -
  obtain model d where run:
    "induceRules 3 1 ruleInductionS1 collaboratorsTwoRules False labelMatrixTwoRules
       (\<lambda>k. 7) [] () = Some (Ok (model, d))"
    and scores: "committedScores (driverModelBuilder d) = [Finite (- (1 / 2)), Finite (- 1)]"
    using induceRules_two_rules by blast
  from induceRules_scores_decrease [of "[]" False labelMatrixTwoRules "\<lambda>k. 7" "()" 1
      ruleInductionS1 collaboratorsTwoRules 3, THEN conjunct2, THEN conjunct2, rule_format, OF run]
  have "strictlyDecreasing (committedScores (driverModelBuilder d))
        \<and> (\<forall>q \<in> set (committedScores (driverModelBuilder d)). flt q (Finite 0))"
    by auto
  with run scores show ?thesis by blast
qed

subsection \<open>\<open>totalPrediction\<close> and \<open>prediction\<close>\<close>







subsection \<open>The counter of the uncovered examples\<close>


subsection \<open>Candidates of zero variance\<close>








subsection \<open>The order of the tasks of the parallel loop\<close>

lemma findRefinements_tasks:
  "findRefinements collab minCoverage xs s
     = forEach xs (findRefinementTask collab (bestHeadPtr s) minCoverage) s"
  unfolding findRefinements_def findRefinementTask_def ..

lemma bindR_case: "bindR m f = (case m of Fault \<Rightarrow> Fault | Ok x \<Rightarrow> f x)"
  by (cases m) simp_all

lemma callbackGet_frame:
  assumes "callbackGet collab f (thr, sub) = Ok ((thr', sub'), fv)"
  shows "thr' = thr\<lparr>featureCache := (featureCache thr)(f := featureCache thr' f)\<rparr>
         \<and> sub' = sub\<lparr>cacheFiltered := (cacheFiltered sub)(f := cacheFiltered sub' f)\<rparr>"
  using assms
  by (auto simp: callbackGet_def Let_def map_upd_triv fun_upd_idem elim!: bindR_OkE
        split: option.splits if_splits prod.splits)

lemma callbackGet_local:
  assumes "f \<noteq> g"
  shows "callbackGet collab f (thr\<lparr>featureCache := (featureCache thr)(g := a)\<rparr>,
                               sub\<lparr>cacheFiltered := (cacheFiltered sub)(g := b)\<rparr>)
         = (case callbackGet collab f (thr, sub) of
              Fault \<Rightarrow> Fault
            | Ok ((thr', sub'), fv) \<Rightarrow>
                Ok ((thr'\<lparr>featureCache := (featureCache thr')(g := a)\<rparr>,
                     sub'\<lparr>cacheFiltered := (cacheFiltered sub')(g := b)\<rparr>), fv))"
  using assms
  by (auto simp: callbackGet_def Let_def fun_upd_twist bindR_case
        split: option.splits if_splits prod.splits result.splits)

lemma findRefinementTask_frame:
  assumes run: "findRefinementTask collab h mc f s = Ok t" and keys: "keysOwn s"
  shows "t = taskEntries f (featureCache (fst (thresholdsState t)) f)
               (cacheFiltered (snd (thresholdsState t)) f) (ruleRefinements t f) s"
    and "keysOwn t"
proof -
  obtain thr sub where ts: "thresholdsState s = (thr, sub)" by (cases "thresholdsState s")
  from run obtain rr where rr: "ruleRefinements s f = Some rr"
    by (auto simp: findRefinementTask_def split: option.splits)
  with keys have idx: "refinedFeatureIndex rr = f" by (simp add: keysOwn_def)
  from run rr ts have "bindR (ruleRefinementFind collab h mc (thr, sub) rr)
      (\<lambda>(ts, rr'). Ok (s\<lparr>thresholdsState := ts,
                             ruleRefinements := (ruleRefinements s)(f \<mapsto> rr')\<rparr>)) = Ok t"
    by (simp add: findRefinementTask_def)
  then obtain ts1 rr' where rf: "ruleRefinementFind collab h mc (thr, sub) rr = Ok (ts1, rr')"
    and t1: "t = s\<lparr>thresholdsState := ts1,
                   ruleRefinements := (ruleRefinements s)(f \<mapsto> rr')\<rparr>"
    by (auto elim!: bindR_OkE)
  from rf have "\<exists>fv newRefinement. callbackGet collab f (thr, sub) = Ok (ts1, fv)
      \<and> rr' = rr\<lparr>foundRefinementPtr := Some newRefinement\<rparr>"
    unfolding ruleRefinementFind_def idx by (auto elim!: bindR_OkE)
  then obtain fv newRefinement where get1: "callbackGet collab f (thr, sub) = Ok (ts1, fv)"
    and rr': "rr' = rr\<lparr>foundRefinementPtr := Some newRefinement\<rparr>"
    by blast
  obtain thr' sub' where ts1: "ts1 = (thr', sub')" by (cases ts1)
  from get1 ts1 have get: "callbackGet collab f (thr, sub) = Ok ((thr', sub'), fv)" by simp
  from t1 ts1 rr' have t: "t = s\<lparr>thresholdsState := (thr', sub'),
                  ruleRefinements := (ruleRefinements s)
                    (f \<mapsto> rr\<lparr>foundRefinementPtr := Some newRefinement\<rparr>)\<rparr>"
    by simp
  from callbackGet_frame [OF get] t ts
  show "t = taskEntries f (featureCache (fst (thresholdsState t)) f)
               (cacheFiltered (snd (thresholdsState t)) f) (ruleRefinements t f) s"
    by (simp add: taskEntries_def)
  from keys t idx show "keysOwn t"
    by (simp add: keysOwn_def)
qed

lemma findRefinementTask_local:
  assumes ne: "f \<noteq> g" and keys: "keysOwn s"
  shows "findRefinementTask collab h mc f (taskEntries g a b c s)
         = (case findRefinementTask collab h mc f s of
              Fault \<Rightarrow> Fault
            | Ok t \<Rightarrow> Ok (taskEntries g a b c t))"
proof (cases "ruleRefinements s f")
  case None
  with ne show ?thesis by (simp add: findRefinementTask_def taskEntries_def)
next
  case (Some rr)
  with keys have idx: "refinedFeatureIndex rr = f" by (simp add: keysOwn_def)
  obtain thr sub where ts: "thresholdsState s = (thr, sub)" by (cases "thresholdsState s")
  show ?thesis
    using ne Some idx ts callbackGet_local [OF ne, of collab thr a sub b]
    by (auto simp: findRefinementTask_def ruleRefinementFind_def taskEntries_def bindR_case
          fun_upd_twist split: result.splits prod.splits)
qed

lemma findRefinementTask_commute:
  assumes ne: "f \<noteq> g" and keys: "keysOwn s"
  shows "bindR (findRefinementTask collab h mc f s) (findRefinementTask collab h mc g)
         = bindR (findRefinementTask collab h mc g s) (findRefinementTask collab h mc f)"
proof (cases "findRefinementTask collab h mc f s")
  case Fault
  show ?thesis
  proof (cases "findRefinementTask collab h mc g s")
    case Fault
    with \<open>findRefinementTask collab h mc f s = Fault\<close> show ?thesis by simp
  next
    case (Ok u)
    from findRefinementTask_frame(1) [OF Ok keys] obtain a b c where u: "u = taskEntries g a b c s"
      by blast
    show ?thesis
      using Fault Ok findRefinementTask_local [OF ne keys, of collab h mc a b c]
      by (simp add: u [symmetric])
  qed
next
  case (Ok t)
  from findRefinementTask_frame(1) [OF Ok keys] obtain a b c where t: "t = taskEntries f a b c s"
    by blast
  have gt: "findRefinementTask collab h mc g t
              = (case findRefinementTask collab h mc g s of
                   Fault \<Rightarrow> Fault
                 | Ok u \<Rightarrow> Ok (taskEntries f a b c u))"
    unfolding t using findRefinementTask_local [OF ne [symmetric] keys] .
  show ?thesis
  proof (cases "findRefinementTask collab h mc g s")
    case Fault
    with Ok gt show ?thesis by simp
  next
    case (Ok u)
    from findRefinementTask_frame(1) [OF Ok keys] obtain a' b' c' where
      u: "u = taskEntries g a' b' c' s"
      by blast
    have "findRefinementTask collab h mc f u = Ok (taskEntries g a' b' c' t)"
      unfolding u using findRefinementTask_local [OF ne keys, of collab h mc a' b' c']
        \<open>findRefinementTask collab h mc f s = Ok t\<close>
      by simp
    moreover have "taskEntries g a' b' c' t = taskEntries f a b c u"
      using ne unfolding t u by (simp add: taskEntries_def fun_upd_twist)
    ultimately show ?thesis
      using Ok \<open>findRefinementTask collab h mc f s = Ok t\<close> gt by simp
  qed
qed

lemma forEach_front:
  assumes comm: "\<And>x y s. P s \<Longrightarrow> x \<noteq> y
                   \<Longrightarrow> bindR (body x s) (body y) = bindR (body y s) (body x)"
    and inv: "\<And>x s t. P s \<Longrightarrow> body x s = Ok t \<Longrightarrow> P t"
    and "P s"
  shows "forEach (ys @ x # zs) body s = forEach (x # ys @ zs) body s"
  using \<open>P s\<close>
proof (induction ys arbitrary: s)
  case Nil
  show ?case by simp
next
  case (Cons y ys)
  have "forEach ((y # ys) @ x # zs) body s
          = bindR (body y s) (forEach (x # ys @ zs) body)"
  proof (cases "body y s")
    case Fault
    then show ?thesis by simp
  next
    case (Ok t)
    with Cons.IH [OF inv [OF Cons.prems Ok]] show ?thesis by simp
  qed
  also have "\<dots> = bindR (bindR (body y s) (body x)) (forEach (ys @ zs) body)"
    by (cases "body y s") simp_all
  also have "bindR (body y s) (body x) = bindR (body x s) (body y)"
    by (cases "x = y") (simp_all add: comm [OF Cons.prems])
  also have "bindR (bindR (body x s) (body y)) (forEach (ys @ zs) body)
               = forEach (x # (y # ys) @ zs) body s"
    by (cases "body x s") simp_all
  finally show ?case .
qed

lemma forEach_mset:
  assumes comm: "\<And>x y s. P s \<Longrightarrow> x \<noteq> y
                   \<Longrightarrow> bindR (body x s) (body y) = bindR (body y s) (body x)"
    and inv: "\<And>x s t. P s \<Longrightarrow> body x s = Ok t \<Longrightarrow> P t"
    and "mset xs = mset ys" and "P s"
  shows "forEach xs body s = forEach ys body s"
  using \<open>mset xs = mset ys\<close> \<open>P s\<close>
proof (induction xs arbitrary: ys s)
  case Nil
  then show ?case by simp
next
  case (Cons x xs)
  from Cons.prems(1) have "x \<in> set ys"
    by (metis list.set_intros(1) mset_eq_setD)
  then obtain ys1 ys2 where ys: "ys = ys1 @ x # ys2"
    by (auto simp: in_set_conv_decomp)
  with Cons.prems(1) have m: "mset xs = mset (ys1 @ ys2)" by simp
  have "forEach ys body s = forEach (x # ys1 @ ys2) body s"
    unfolding ys by (rule forEach_front [where P = P and body = body, OF comm inv Cons.prems(2)])
  also have "\<dots> = forEach (x # xs) body s"
  proof (cases "body x s")
    case Fault
    then show ?thesis by simp
  next
    case (Ok t)
    with Cons.IH [OF m inv [OF Cons.prems(2) Ok]] show ?thesis by simp
  qed
  finally show ?case by simp
qed

lemma findRefinements_schedule:
  assumes "mset schedule = mset sampledFeatureIndices" and "keysOwn s"
  shows "findRefinements collab minCoverage schedule s
           = findRefinements collab minCoverage sampledFeatureIndices s"
  unfolding findRefinements_tasks
  by (rule forEach_mset [where P = keysOwn, OF findRefinementTask_commute
        findRefinementTask_frame(2) assms])

lemma createRuleRefinements_taskOrder:
  "createRuleRefinements (collab\<lparr>taskOrder := order'\<rparr>) xs s = createRuleRefinements collab xs s"
  by (simp add: createRuleRefinements_def createExactRuleRefinement_def)

lemma callbackGet_taskOrder:
  "callbackGet (collab\<lparr>taskOrder := order'\<rparr>) f ts = callbackGet collab f ts"
  by (simp add: callbackGet_def split: prod.splits option.splits)

lemma ruleRefinementFind_taskOrder:
  "ruleRefinementFind (collab\<lparr>taskOrder := order'\<rparr>) h mc ts rr
     = ruleRefinementFind collab h mc ts rr"
  by (simp add: ruleRefinementFind_def callbackGet_taskOrder)

lemma findRefinements_taskOrder:
  "findRefinements (collab\<lparr>taskOrder := order'\<rparr>) mc xs s = findRefinements collab mc xs s"
proof -
  have eq: "ruleRefinementFind (collab\<lparr>taskOrder := order'\<rparr>) = ruleRefinementFind collab"
    by (intro ext) (rule ruleRefinementFind_taskOrder)
  show ?thesis
    unfolding findRefinements_def eq ..
qed

lemma createRuleRefinements_keysOwn:
  assumes "createRuleRefinements collab xs s = Ok s'" and "keysOwn s"
  shows "keysOwn s'"
  by (rule forEach_invariant [where P = keysOwn, OF assms(1) [unfolded createRuleRefinements_def]
        assms(2)])
     (auto simp: keysOwn_def createExactRuleRefinement_def Let_def split: prod.splits if_splits)

lemma findRefinements_keysOwn:
  assumes "findRefinements collab mc xs s = Ok s'" and "keysOwn s"
  shows "keysOwn s'"
  by (rule forEach_invariant [where P = keysOwn, OF assms(1) [unfolded findRefinements_tasks]
        assms(2)])
     (rule findRefinementTask_frame(2))

lemma pickBestRefinement_keysOwn:
  assumes "pickBestRefinement xs s = Ok s'" and "keysOwn s"
  shows "keysOwn s'"
  by (rule forEach_invariant [where P = keysOwn, OF assms(1) [unfolded pickBestRefinement_def]
        assms(2)])
     (auto simp: keysOwn_def Let_def pollRefinement_def split: option.splits if_splits)

lemma refineRule_keysOwn:
  assumes "refineRule collab mc s = Ok s'" and "keysOwn s"
  shows "keysOwn s'"
proof -
  obtain fs g where sample: "featureSubSample collab (rngState s) = (fs, g)"
    by (cases "featureSubSample collab (rngState s)")
  let ?s0 = "s\<lparr>foundRefinement := False, rngState := g\<rparr>"
  from assms(1) sample obtain s1 s2 s3 where
    c: "createRuleRefinements collab fs ?s0 = Ok s1"
    and f: "findRefinements collab mc (taskOrder collab fs) s1 = Ok s2"
    and p: "pickBestRefinement fs s2 = Ok s3"
    and fin: "(if foundRefinement s3 then
        bindR (filterThresholds (bestRefinementPtr s3) (thresholdsState s3)) (\<lambda>(ts, refinement).
        Ok (s3\<lparr>bestHeadPtr := headPtr refinement, bestRefinementPtr := refinement,
               thresholdsState := ts, conditions := conditions s3 @ [refinement],
               numConditions := numConditions s3 + 1\<rparr>))
      else Ok s3) = Ok s'"
    by (auto simp: refineRule_def Let_def elim!: bindR_OkE)
  from assms(2) have "keysOwn ?s0" by (simp add: keysOwn_def)
  from pickBestRefinement_keysOwn [OF p findRefinements_keysOwn [OF f
        createRuleRefinements_keysOwn [OF c this]]]
  have "keysOwn s3" .
  with fin show ?thesis
    by (auto simp: keysOwn_def elim!: bindR_OkE split: if_splits)
qed

lemma refineRule_taskOrder:
  assumes keys: "keysOwn s"
    and perm: "reordersTasks (taskOrder collab)" "reordersTasks order'"
  shows "refineRule (collab\<lparr>taskOrder := order'\<rparr>) mc s = refineRule collab mc s"
proof -
  obtain fs g where sample: "featureSubSample collab (rngState s) = (fs, g)"
    by (cases "featureSubSample collab (rngState s)")
  let ?s0 = "s\<lparr>foundRefinement := False, rngState := g\<rparr>"
  have find: "findRefinements collab mc (order' fs) s1
                = findRefinements collab mc (taskOrder collab fs) s1"
    if "createRuleRefinements collab fs ?s0 = Ok s1" for s1
  proof -
    from keys have "keysOwn ?s0" by (simp add: keysOwn_def)
    from createRuleRefinements_keysOwn [OF that this] have k: "keysOwn s1" .
    from perm have "mset (order' fs) = mset (taskOrder collab fs)"
      by (simp add: reordersTasks_def)
    from findRefinements_schedule [OF this k] show ?thesis .
  qed
  show ?thesis
  proof (cases "createRuleRefinements collab fs ?s0")
    case Fault
    with sample show ?thesis
      by (simp add: refineRule_def createRuleRefinements_taskOrder)
  next
    case (Ok s1)
    with sample find [OF Ok] show ?thesis
      by (simp add: refineRule_def createRuleRefinements_taskOrder findRefinements_taskOrder)
  qed
qed

lemma growRule_taskOrder:
  assumes perm: "reordersTasks (taskOrder collab)" "reordersTasks order'"
  shows "keysOwn s \<Longrightarrow>
         growRule fuel (collab\<lparr>taskOrder := order'\<rparr>) maxc mc s = growRule fuel collab maxc mc s"
proof (induction fuel arbitrary: s)
  case 0
  show ?case by (simp add: growRule.simps)
next
  case (Suc fuel)
  show ?case
  proof (cases "refineRule collab mc s")
    case Fault
    with refineRule_taskOrder [OF Suc.prems perm, of mc] show ?thesis
      by (simp add: growRule.simps [of "Suc fuel" _ _ _ s])
  next
    case (Ok s')
    from refineRule_keysOwn [OF Ok Suc.prems] have "keysOwn s'" .
    from Suc.IH [OF this] have ih: "growRule fuel (collab\<lparr>taskOrder := order'\<rparr>) maxc mc s'
        = growRule fuel collab maxc mc s'" .
    from Ok refineRule_taskOrder [OF Suc.prems perm, of mc]
    have "refineRule (collab\<lparr>taskOrder := order'\<rparr>) mc s = Ok s'" by simp
    with Ok ih show ?thesis
      by (auto simp: growRule.simps [of "Suc fuel" _ _ _ s])
  qed
qed

lemma induceRule_taskOrder:
  assumes perm: "reordersTasks (taskOrder collab)" "reordersTasks order'"
  shows "induceRule fuel ri (collab\<lparr>taskOrder := order'\<rparr>) thr ws g modelBuilder quality
           = induceRule fuel ri collab thr ws g modelBuilder quality"
proof -
  have "keysOwn (initialInductionState ts g)" for ts
    by (simp add: keysOwn_def initialInductionState_def)
  from growRule_taskOrder [OF perm this] show ?thesis
    by (simp add: induceRule_def split: result.splits)
qed

lemma induceRulesStep_taskOrder:
  assumes perm: "reordersTasks (taskOrder collab)" "reordersTasks order'"
  shows "induceRulesStep ruleFuel ri (collab\<lparr>taskOrder := order'\<rparr>) d
           = induceRulesStep ruleFuel ri collab d"
proof -
  have eq: "induceRule ruleFuel ri (collab\<lparr>taskOrder := order'\<rparr>)
          = induceRule ruleFuel ri collab"
    by (intro ext) (rule induceRule_taskOrder [OF perm])
  show ?thesis
    unfolding induceRulesStep_def eq by (simp add: Let_def split: prod.splits)
qed

lemma induceRulesLoop_taskOrder:
  assumes perm: "reordersTasks (taskOrder collab)" "reordersTasks order'"
  shows "induceRulesLoop fuel ruleFuel ri (collab\<lparr>taskOrder := order'\<rparr>) d
           = induceRulesLoop fuel ruleFuel ri collab d"
proof (induction fuel arbitrary: d)
  case 0
  show ?case by (simp add: induceRulesLoop.simps)
next
  case (Suc fuel)
  then show ?case
    by (simp add: induceRulesLoop.simps [of "Suc fuel"] induceRulesStep_taskOrder [OF perm]
          split: option.splits result.splits)
qed

lemma forEach_append:
  "forEach (xs @ ys) body s = bindR (forEach xs body s) (forEach ys body)"
proof (induction xs arbitrary: s)
  case Nil
  show ?case by simp
next
  case (Cons a xs)
  show ?case by (cases "body a s") (simp_all add: Cons.IH)
qed

lemma pickBestRefinement_append:
  "pickBestRefinement (xs @ ys) s = bindR (pickBestRefinement xs s) (pickBestRefinement ys)"
proof -
  obtain body where body: "\<And>zs (u :: 'a InductionState). pickBestRefinement zs u = forEach zs body u"
    by (rule that) (rule pickBestRefinement_def)
  then have "pickBestRefinement ys = forEach ys body"
    by (intro ext)
  with body show ?thesis
    by (simp add: forEach_append)
qed

lemma flt_irrefl: "\<not> flt q q"
  by (cases q) simp_all

text \<open>
  Claim C8.  The order in which the tasks of the parallel loop take effect is a parameter of
  the run.  Two runs of \<open>induceRules\<close> on the same inputs, with the same random number
  generator and the same sampled features, whose task orders are any two reorderings of the
  tasks, return the same rule model and the same final state: a task reads and writes only
  the rule refinement and the cache entries of its own feature, so that the tasks commute.
  The reduction after the parallel loop is the sequential loop \<open>pickBestRefinement\<close> over the
  sampled features in their order, and a candidate whose quality score equals that of the
  best refinement so far does not replace it.
\<close>

theorem induceRules_task_order:
  "(reordersTasks (taskOrder collab) \<and> reordersTasks order'
      \<longrightarrow> induceRules fuel ruleFuel ri (collab\<lparr>taskOrder := order'\<rparr>) hasDefaultRule lm
            uninitialised modelBuilder g
          = induceRules fuel ruleFuel ri collab hasDefaultRule lm uninitialised modelBuilder g)
   \<and> pickBestRefinement (xs @ ys) s = bindR (pickBestRefinement xs s) (pickBestRefinement ys)
   \<and> (ruleRefinements s f = Some rr \<and> foundRefinementPtr rr = Some candidate
        \<and> refinementQuality candidate = refinementQuality (bestRefinementPtr s)
      \<longrightarrow> (\<exists>s'. pickBestRefinement [f] s = Ok s'
             \<and> bestRefinementPtr s' = bestRefinementPtr s
             \<and> foundRefinement s' = foundRefinement s))"
proof (intro conjI impI)
  assume "reordersTasks (taskOrder collab) \<and> reordersTasks order'"
  then have perm: "reordersTasks (taskOrder collab)" "reordersTasks order'"
    by simp_all
  show "induceRules fuel ruleFuel ri (collab\<lparr>taskOrder := order'\<rparr>) hasDefaultRule lm
            uninitialised modelBuilder g
          = induceRules fuel ruleFuel ri collab hasDefaultRule lm uninitialised modelBuilder g"
    by (simp add: induceRules_def induceRulesLoop_taskOrder [OF perm])
next
  show "pickBestRefinement (xs @ ys) s = bindR (pickBestRefinement xs s) (pickBestRefinement ys)"
    by (rule pickBestRefinement_append)
next
  assume "ruleRefinements s f = Some rr \<and> foundRefinementPtr rr = Some candidate
        \<and> refinementQuality candidate = refinementQuality (bestRefinementPtr s)"
  then show "\<exists>s'. pickBestRefinement [f] s = Ok s'
             \<and> bestRefinementPtr s' = bestRefinementPtr s
             \<and> foundRefinement s' = foundRefinement s"
    by (simp add: pickBestRefinement_def pollRefinement_def isBetterThan_def flt_irrefl)
qed

text \<open>
  S1 with two features: the tasks of the parallel loop in the order of the sampled features,
  and in the reverse order.
\<close>

lemma induceRules_two_features:
  "\<exists>model d. induceRules 2 1 ruleInductionS1 collaboratorsTwoFeatures False labelMatrixS1
                 (\<lambda>k. 7) [] () = Some (Ok (model, d))
            \<and> committedScores model = [Finite (- 1)]"
  apply (simp add: evalDriver evalThresholds evalSweep collaboratorsTwoFeatures_def
      featureVectorS1_def featureVectorOnePerSlot_def ruleInductionS1_def labelMatrixS1_def)
  apply (simp add: numeral_eq_Suc)?
  done

theorem induceRules_task_order_witness:
  "(\<exists>model d. induceRules 2 1 ruleInductionS1 (collaboratorsTwoFeatures\<lparr>taskOrder := rev\<rparr>)
                  False labelMatrixS1 (\<lambda>k. 7) [] () = Some (Ok (model, d))
             \<and> induceRules 2 1 ruleInductionS1 collaboratorsTwoFeatures
                  False labelMatrixS1 (\<lambda>k. 7) [] () = Some (Ok (model, d))
             \<and> committedScores model = [Finite (- 1)])
   \<and> (\<exists>s'. pickBestRefinement [0]
              ((initialInductionState (thresholdsGrownS1, subsetGrownS1) ())
                 \<lparr>ruleRefinements :=
                    [0 \<mapsto> \<lparr> refinedFeatureIndex = 0, refinedNominal = False,
                            refinedNumExamples = 6,
                            foundRefinementPtr = Some (emptyRefinement\<lparr>numCovered := 4\<rparr>) \<rparr>]\<rparr>)
              = Ok s'
          \<and> bestRefinementPtr s' = emptyRefinement)"
proof -
  let ?rr = "\<lparr> refinedFeatureIndex = 0, refinedNominal = False, refinedNumExamples = 6,
               foundRefinementPtr = Some (emptyRefinement\<lparr>numCovered := 4\<rparr>) \<rparr>"
  let ?s = "(initialInductionState (thresholdsGrownS1, subsetGrownS1) ())
              \<lparr>ruleRefinements := [0 \<mapsto> ?rr]\<rparr>"
  note inst = induceRules_task_order [of collaboratorsTwoFeatures rev 2 1 ruleInductionS1 False
      labelMatrixS1 "\<lambda>k. 7" "[]" "()" "[]" "[0]" ?s 0 ?rr "emptyRefinement\<lparr>numCovered := 4\<rparr>"]
  have perm: "reordersTasks (taskOrder collaboratorsTwoFeatures)" "reordersTasks rev"
    by (simp_all add: reordersTasks_def collaboratorsTwoFeatures_def)
  obtain model d where run:
    "induceRules 2 1 ruleInductionS1 collaboratorsTwoFeatures False labelMatrixS1
       (\<lambda>k. 7) [] () = Some (Ok (model, d))"
    and scores: "committedScores model = [Finite (- 1)]"
    using induceRules_two_features by blast
  from inst perm run
  have rev: "induceRules 2 1 ruleInductionS1 (collaboratorsTwoFeatures\<lparr>taskOrder := rev\<rparr>)
               False labelMatrixS1 (\<lambda>k. 7) [] () = Some (Ok (model, d))"
    by simp
  have tie: "ruleRefinements ?s 0 = Some ?rr \<and> foundRefinementPtr ?rr
        = Some (emptyRefinement\<lparr>numCovered := 4\<rparr>)
      \<and> refinementQuality (emptyRefinement\<lparr>numCovered := 4\<rparr>)
          = refinementQuality (bestRefinementPtr ?s)"
    by (simp add: initialInductionState_def refinementQuality_def emptyRefinement_def)
  from inst tie obtain s' where "pickBestRefinement [0] ?s = Ok s'"
    and "bestRefinementPtr s' = bestRefinementPtr ?s"
    by blast
  then have "pickBestRefinement [0] ?s = Ok s' \<and> bestRefinementPtr s' = emptyRefinement"
    by (simp add: initialInductionState_def)
  with run rev scores show ?thesis by blast
qed

end
